theory Spec2Isabelle
  imports Main "HOL-Library.Sublist"
begin

section \<open>Exceptions and the string primitives used by the program\<close>

text \<open>
  The exceptions that \<^verbatim>\<open>sistema_correo.py\<close> raises, each with its message.
  A call that can raise returns \<open>error + 'a\<close> (\<open>Inl\<close> is the exception); a method
  that mutates its object returns the outcome paired with the object as the call left it.
\<close>

datatype error = ValueError string | IndexError string | TypeError string | AttributeError string

text \<open>
  Python strings are modelled as \<open>string\<close>; a character outside ASCII is the bytes of its
  UTF-8 encoding. \<^verbatim>\<open>str.lower\<close> is the case mapping of Unicode and is not defined here: every
  function whose source calls it takes it as its first argument \<open>baja\<close>, a function from
  strings to strings, and what is proved about such a function is proved for every \<open>baja\<close>,
  so for \<^verbatim>\<open>str.lower\<close> whatever it does to a text.
\<close>

text \<open>\<^verbatim>\<open>a in b\<close> on strings: \<open>a\<close> occurs in \<open>b\<close> as a contiguous block.\<close>

fun str_in :: "string \<Rightarrow> string \<Rightarrow> bool" where
  "str_in a [] = (a = [])"
| "str_in a (c # cs) = (prefix a (c # cs) \<or> str_in a cs)"

text \<open>\<^verbatim>\<open>s.strip("/")\<close>: the slashes at both ends are dropped.\<close>

definition strip_slash :: "string \<Rightarrow> string" where
  "strip_slash s = rev (dropWhile (\<lambda>c. c = CHR ''/'') (rev (dropWhile (\<lambda>c. c = CHR ''/'') s)))"

text \<open>
  \<^verbatim>\<open>s.split("/")\<close>: the pieces between the slashes, empty pieces kept; the empty
  string splits into the one empty piece.
\<close>

fun split_slash :: "string \<Rightarrow> string list" where
  "split_slash [] = [[]]"
| "split_slash (c # cs) =
     (if c = CHR ''/'' then [] # split_slash cs
      else (case split_slash cs of
              [] \<Rightarrow> [[c]]
            | p # ps \<Rightarrow> (c # p) # ps))"

section \<open>Mensaje\<close>

text \<open>
  The fields that \<^verbatim>\<open>Mensaje.__init__\<close> stores. \<open>id_msg\<close> is \<^verbatim>\<open>_id\<close>, the
  \<^verbatim>\<open>uuid4()\<close> string drawn at construction, and \<open>fecha\<close> the clock reading; both are
  inputs of the model. \<^verbatim>\<open>Mensaje\<close> defines neither \<^verbatim>\<open>__eq__\<close> nor \<^verbatim>\<open>__lt__\<close>:
  two messages are equal when they are the same object, which the model reads as equality
  of the records (distinct objects carry distinct \<open>id_msg\<close>).
\<close>

record Mensaje =
  id_msg :: string
  remitente :: string
  destinatario :: string
  asunto :: string
  cuerpo :: string
  fecha :: nat
  leido :: bool
  prioridad :: string

definition Mensaje_init ::
  "string \<Rightarrow> nat \<Rightarrow> string \<Rightarrow> string \<Rightarrow> string \<Rightarrow> string \<Rightarrow> string \<Rightarrow> error + Mensaje" where
  "Mensaje_init uuid now rem dest asu cue pri =
     (if dest = [] then Inl (ValueError ''El mensaje debe tener destinatario.'')
      else Inr \<lparr> id_msg = uuid, remitente = rem, destinatario = dest, asunto = asu,
                 cuerpo = cue, fecha = now, leido = False,
                 prioridad = (if pri \<in> {''Alta'', ''Media'', ''Baja''} then pri else ''Media'') \<rparr>)"

definition marcar_leido :: "Mensaje \<Rightarrow> Mensaje" where
  "marcar_leido m = m\<lparr> leido := True \<rparr>"

definition marcar_no_leido :: "Mensaje \<Rightarrow> Mensaje" where
  "marcar_no_leido m = m\<lparr> leido := False \<rparr>"

section \<open>Carpeta: a node of the folder tree\<close>

text \<open>
  A folder holds its name, its messages in insertion order (\<^verbatim>\<open>_mensajes\<close>) and its
  children (\<^verbatim>\<open>_subcarpetas\<close>, a dict, whose order is the order of insertion) as
  an association list from child name to child. The tree is a value: \<^verbatim>\<open>_padre\<close> is
  the node above, and a folder object is referred to by the list of child names that leads
  to it from the root, so two references are the same object exactly when the lists are
  equal.
\<close>

datatype Carpeta =
  Carpeta (nombre: string) (mensajes: "Mensaje list") (subcarpetas: "(string \<times> Carpeta) list")

definition Carpeta_init :: "string \<Rightarrow> Carpeta" where
  "Carpeta_init nom = Carpeta nom [] []"

definition agregar_mensaje :: "Carpeta \<Rightarrow> Mensaje \<Rightarrow> Carpeta" where
  "agregar_mensaje c m = Carpeta (nombre c) (mensajes c @ [m]) (subcarpetas c)"

text \<open>\<^verbatim>\<open>list.remove\<close> deletes the first occurrence and raises when there is none.\<close>

definition quitar_mensaje :: "Carpeta \<Rightarrow> Mensaje \<Rightarrow> (error + unit) \<times> Carpeta" where
  "quitar_mensaje c m =
     (if m \<in> set (mensajes c)
      then (Inr (), Carpeta (nombre c) (remove1 m (mensajes c)) (subcarpetas c))
      else (Inl (ValueError ''list.remove(x): x not in list''), c))"

definition obtener_por_indice :: "Carpeta \<Rightarrow> int \<Rightarrow> Mensaje option" where
  "obtener_por_indice c idx =
     (if 0 \<le> idx \<and> idx < int (length (mensajes c)) then Some (mensajes c ! nat idx) else None)"

definition obtener_subcarpeta :: "Carpeta \<Rightarrow> string \<Rightarrow> Carpeta option" where
  "obtener_subcarpeta c nom = map_of (subcarpetas c) nom"

text \<open>The text of an f-string that quotes a value: \<open>comillas s\<close> is \<open>s\<close> between single quotes.\<close>

definition comillas :: "string \<Rightarrow> string" where
  "comillas s = [CHR 0x27] @ s @ [CHR 0x27]"

definition crear_subcarpeta :: "Carpeta \<Rightarrow> string \<Rightarrow> (error + unit) \<times> Carpeta" where
  "crear_subcarpeta c nom =
     (if nom \<in> fst ` set (subcarpetas c)
      then (Inl (ValueError (''La subcarpeta '' @ comillas nom @ '' ya existe.'')), c)
      else (Inr (), Carpeta (nombre c) (mensajes c) (subcarpetas c @ [(nom, Carpeta_init nom)])))"

text \<open>
  Following a reference from the root, and writing through one. \<open>carpeta_en\<close> is
  \<open>None\<close> for a list of names that leads to no folder.
\<close>

fun carpeta_en :: "Carpeta \<Rightarrow> string list \<Rightarrow> Carpeta option" where
  "carpeta_en c [] = Some c"
| "carpeta_en c (p # ps) =
     (case obtener_subcarpeta c p of None \<Rightarrow> None | Some sub \<Rightarrow> carpeta_en sub ps)"

fun cambiar_hijo ::
  "string \<Rightarrow> (Carpeta \<Rightarrow> Carpeta) \<Rightarrow> (string \<times> Carpeta) list \<Rightarrow> (string \<times> Carpeta) list" where
  "cambiar_hijo p f [] = []"
| "cambiar_hijo p f ((k, s) # subs) =
     (if k = p then (k, f s) # subs else (k, s) # cambiar_hijo p f subs)"

fun modificar_en :: "(Carpeta \<Rightarrow> Carpeta) \<Rightarrow> string list \<Rightarrow> Carpeta \<Rightarrow> Carpeta" where
  "modificar_en f [] c = f c"
| "modificar_en f (p # ps) c =
     Carpeta (nombre c) (mensajes c) (cambiar_hijo p (modificar_en f ps) (subcarpetas c))"

section \<open>SistemaCorreo: path resolution, recursive search, moving a message\<close>

text \<open>\<^verbatim>\<open>SistemaCorreo\<close> has one field, the root folder it was given.\<close>

type_synonym SistemaCorreo = Carpeta

definition no_existe :: "string \<Rightarrow> string \<Rightarrow> error" where
  "no_existe p ruta =
     ValueError (''No existe la carpeta '' @ comillas p @ '' en la ruta '' @ comillas ruta)"

fun recorrer :: "string \<Rightarrow> Carpeta \<Rightarrow> string list \<Rightarrow> error + Carpeta" where
  "recorrer ruta actual [] = Inr actual"
| "recorrer ruta actual (p # partes) =
     (case obtener_subcarpeta actual p of
        None \<Rightarrow> Inl (no_existe p ruta)
      | Some sub \<Rightarrow> recorrer ruta sub partes)"

definition obtener_por_ruta :: "SistemaCorreo \<Rightarrow> string \<Rightarrow> error + Carpeta" where
  "obtener_por_ruta carpeta_raiz ruta = recorrer ruta carpeta_raiz (split_slash (strip_slash ruta))"




text \<open>
  \<^verbatim>\<open>mover_mensaje\<close> receives two folder objects; here they are the references
  \<open>origen\<close> and \<open>destino\<close> into the tree, and the two writes happen one after the
  other, as in the source. A reference that leads to no folder is not an input of the
  program; the model leaves the tree as it is.
\<close>

definition fuera_de_rango :: error where
  "fuera_de_rango = IndexError ([CHR 0xC3, CHR 0x8D] @ ''ndice de mensaje fuera de rango.'')"

definition mover_mensaje ::
  "SistemaCorreo \<Rightarrow> string list \<Rightarrow> int \<Rightarrow> string list \<Rightarrow> (error + unit) \<times> SistemaCorreo" where
  "mover_mensaje carpeta_raiz origen indice destino =
     (case carpeta_en carpeta_raiz origen of
        None \<Rightarrow> (Inr (), carpeta_raiz)
      | Some carpeta_origen \<Rightarrow>
          (case obtener_por_indice carpeta_origen indice of
             None \<Rightarrow> (Inl fuera_de_rango, carpeta_raiz)
           | Some mensaje \<Rightarrow>
               (case quitar_mensaje carpeta_origen mensaje of
                  (Inl e, _) \<Rightarrow> (Inl e, carpeta_raiz)
                | (Inr _, _) \<Rightarrow>
                    (Inr (),
                     modificar_en (\<lambda>c. agregar_mensaje c mensaje) destino
                       (modificar_en (\<lambda>c. snd (quitar_mensaje c mensaje)) origen carpeta_raiz)))))"

section \<open>Usuario\<close>

record Usuario =
  nombre_usuario :: string
  email :: string
  raiz :: Carpeta

definition Usuario_init :: "string \<Rightarrow> string \<Rightarrow> Usuario" where
  "Usuario_init nom correo =
     \<lparr> nombre_usuario = nom, email = correo,
       raiz = snd (crear_subcarpeta
                (snd (crear_subcarpeta
                   (snd (crear_subcarpeta (Carpeta_init ''Root'') ''Entrada''))
                   ''Enviados''))
                ''Prioritarios'') \<rparr>"

text \<open>
  \<^verbatim>\<open>obtener_carpeta\<close> returns the child of the root with that name, created when
  absent; the folder returned is the one at the reference \<open>[nom]\<close>.
\<close>

definition obtener_carpeta :: "Usuario \<Rightarrow> string \<Rightarrow> (error + unit) \<times> Usuario" where
  "obtener_carpeta u nom =
     (case obtener_subcarpeta (raiz u) nom of
        Some sub \<Rightarrow> (Inr (), u)
      | None \<Rightarrow> (case crear_subcarpeta (raiz u) nom of (r, c) \<Rightarrow> (r, u\<lparr> raiz := c \<rparr>)))"

definition redactar ::
  "Usuario \<Rightarrow> string \<Rightarrow> nat \<Rightarrow> string \<Rightarrow> string \<Rightarrow> string \<Rightarrow> string \<Rightarrow> error + Mensaje" where
  "redactar u uuid now dest asu cue pri = Mensaje_init uuid now (email u) dest asu cue pri"

section \<open>The heap of the standard library, on pairs of an ordinal and a message\<close>

text \<open>
  \<^verbatim>\<open>ColaPrioridades\<close> keeps a list of tuples \<^verbatim>\<open>(prioridad_num, mensaje)\<close> and hands it to
  \<^verbatim>\<open>heapq.heappush\<close> and \<^verbatim>\<open>heapq.heappop\<close>, which order the entries with \<^verbatim>\<open><\<close>. On tuples
  \<^verbatim>\<open><\<close> looks for the first position where the two differ (by \<^verbatim>\<open>==\<close>, which for two objects
  of a class without \<^verbatim>\<open>__eq__\<close> is identity) and compares the items there. \<^verbatim>\<open>Mensaje\<close> defines
  neither \<^verbatim>\<open>__eq__\<close> nor \<^verbatim>\<open>__lt__\<close>: with equal ordinals and two different message objects the
  comparison of the messages raises \<^verbatim>\<open>TypeError\<close>; with equal ordinals and the same object the
  tuples are equal and \<^verbatim>\<open><\<close> is false. As for \<^verbatim>\<open>list.remove\<close> above, two messages are the same
  object exactly when the records are equal.
\<close>

type_synonym entrada = "int \<times> Mensaje"

definition error_comparacion :: error where
  "error_comparacion =
     TypeError (comillas ''<'' @ '' not supported between instances of ''
                  @ comillas ''Mensaje'' @ '' and '' @ comillas ''Mensaje'')"

definition menor :: "entrada \<Rightarrow> entrada \<Rightarrow> error + bool" where
  "menor x y =
     (if fst x \<noteq> fst y then Inr (fst x < fst y)
      else if snd x = snd y then Inr False
      else Inl error_comparacion)"

text \<open>
  \<^verbatim>\<open>heappush\<close> and \<^verbatim>\<open>heappop\<close> are those of the compiled module \<^verbatim>\<open>_heapq\<close>, which CPython's
  \<^verbatim>\<open>heapq\<close> imports over the Python functions of the same names, with its two helpers
  \<^verbatim>\<open>siftdown\<close> and \<^verbatim>\<open>siftup\<close>. Each returns the list as it is left, also when a comparison
  raises: \<^verbatim>\<open>heappush\<close> has appended the item before it sifts, \<^verbatim>\<open>heappop\<close> has removed the last
  entry and put it in the first place, and the helpers exchange two entries at each step.
  \<^verbatim>\<open>siftdown\<close> exchanges the entry at \<open>pos\<close> with its parent while it is smaller than the parent;
  \<^verbatim>\<open>siftup\<close> exchanges the entry at \<open>pos\<close> with its smaller child (the right one unless the left
  is smaller) until \<open>pos\<close> has no child, and then sifts down from there. Both refuse a position
  outside the list.
\<close>

definition intercambiar :: "entrada list \<Rightarrow> nat \<Rightarrow> nat \<Rightarrow> entrada list" where
  "intercambiar heap i j = heap[i := heap ! j, j := heap ! i]"

definition indice_fuera :: error where
  "indice_fuera = IndexError ''index out of range''"

function siftdown_bucle ::
  "entrada list \<Rightarrow> nat \<Rightarrow> nat \<Rightarrow> (error + unit) \<times> entrada list" where
  "siftdown_bucle heap startpos pos =
     (if pos > startpos
      then (case menor (heap ! pos) (heap ! ((pos - 1) div 2)) of
              Inl e \<Rightarrow> (Inl e, heap)
            | Inr lt \<Rightarrow>
                (if lt
                 then siftdown_bucle (intercambiar heap ((pos - 1) div 2) pos) startpos
                        ((pos - 1) div 2)
                 else (Inr (), heap)))
      else (Inr (), heap))"
  by pat_completeness auto

termination siftdown_bucle
  by (relation "measure (\<lambda>(heap, startpos, pos). pos)") auto

declare siftdown_bucle.simps [simp del]

definition siftdown :: "entrada list \<Rightarrow> nat \<Rightarrow> nat \<Rightarrow> (error + unit) \<times> entrada list" where
  "siftdown heap startpos pos =
     (if pos \<ge> length heap then (Inl indice_fuera, heap) else siftdown_bucle heap startpos pos)"

function siftup_bucle ::
  "entrada list \<Rightarrow> nat \<Rightarrow> nat \<Rightarrow> (error + nat) \<times> entrada list" where
  "siftup_bucle heap endpos pos =
     (if pos < endpos div 2
      then (if 2 * pos + 1 + 1 < endpos
            then (case menor (heap ! (2 * pos + 1)) (heap ! (2 * pos + 1 + 1)) of
                    Inl e \<Rightarrow> (Inl e, heap)
                  | Inr lt \<Rightarrow>
                      (if lt
                       then siftup_bucle (intercambiar heap (2 * pos + 1) pos) endpos (2 * pos + 1)
                       else siftup_bucle (intercambiar heap (2 * pos + 1 + 1) pos) endpos
                              (2 * pos + 1 + 1)))
            else siftup_bucle (intercambiar heap (2 * pos + 1) pos) endpos (2 * pos + 1))
      else (Inr pos, heap))"
  by pat_completeness auto

termination siftup_bucle
  by (relation "measure (\<lambda>(heap, endpos, pos). endpos - pos)") auto

declare siftup_bucle.simps [simp del]

definition siftup :: "entrada list \<Rightarrow> nat \<Rightarrow> (error + unit) \<times> entrada list" where
  "siftup heap pos =
     (if pos \<ge> length heap then (Inl indice_fuera, heap)
      else (case siftup_bucle heap (length heap) pos of
              (Inl e, heap') \<Rightarrow> (Inl e, heap')
            | (Inr p, heap') \<Rightarrow> siftdown heap' pos p))"

definition heappush :: "entrada list \<Rightarrow> entrada \<Rightarrow> (error + unit) \<times> entrada list" where
  "heappush heap item = siftdown (heap @ [item]) 0 (length (heap @ [item]) - 1)"

definition heappop :: "entrada list \<Rightarrow> (error + entrada) \<times> entrada list" where
  "heappop heap =
     (if heap = [] then (Inl indice_fuera, heap)
      else if butlast heap = [] then (Inr (last heap), butlast heap)
      else (case siftup ((butlast heap)[0 := last heap]) 0 of
              (Inl e, heap') \<Rightarrow> (Inl e, heap')
            | (Inr u, heap') \<Rightarrow> (Inr (hd heap), heap')))"

section \<open>ColaPrioridades\<close>

text \<open>
  The queue is its \<^verbatim>\<open>_heap\<close>. \<open>prioridad_num\<close> is \<^verbatim>\<open>self._valor.get(mensaje.prioridad, 2)\<close>.
  \<^verbatim>\<open>procesar\<close> returns \<^verbatim>\<open>None\<close> on the empty queue and otherwise the message of the entry that
  \<^verbatim>\<open>heappop\<close> returns.
\<close>

type_synonym ColaPrioridades = "entrada list"

definition valor :: "(string \<times> int) list" where
  "valor = [(''Alta'', 1), (''Media'', 2), (''Baja'', 3)]"

definition prioridad_num :: "Mensaje \<Rightarrow> int" where
  "prioridad_num m = (case map_of valor (prioridad m) of None \<Rightarrow> 2 | Some n \<Rightarrow> n)"

definition agregar :: "ColaPrioridades \<Rightarrow> Mensaje \<Rightarrow> (error + unit) \<times> ColaPrioridades" where
  "agregar cola m = heappush cola (prioridad_num m, m)"

definition procesar :: "ColaPrioridades \<Rightarrow> (error + Mensaje option) \<times> ColaPrioridades" where
  "procesar cola =
     (if cola = [] then (Inr None, cola)
      else (case heappop cola of
              (Inl e, cola') \<Rightarrow> (Inl e, cola')
            | (Inr item, cola') \<Rightarrow> (Inr (Some (snd item)), cola')))"

definition esta_vacia :: "ColaPrioridades \<Rightarrow> bool" where
  "esta_vacia cola = (cola = [])"

text \<open>
  Sifting keeps the length of the list and \<^verbatim>\<open>heappop\<close> shortens it by one, whether or not a
  comparison raises; so the loop of \<^verbatim>\<open>procesar_mensajes_prioritarios\<close> below terminates.
\<close>

lemma length_intercambiar: "length (intercambiar heap i j) = length heap"
  by (simp add: intercambiar_def)

lemma length_siftdown_bucle:
  "length (snd (siftdown_bucle heap startpos pos)) = length heap"
proof (induction heap startpos pos rule: siftdown_bucle.induct)
  case (1 heap startpos pos)
  show ?case
  proof (cases "pos > startpos")
    case False
    then show ?thesis by (simp add: siftdown_bucle.simps [of heap startpos pos])
  next
    case True
    show ?thesis
    proof (cases "menor (heap ! pos) (heap ! ((pos - 1) div 2))")
      case (Inl e)
      then show ?thesis using True by (simp add: siftdown_bucle.simps [of heap startpos pos])
    next
      case (Inr lt)
      show ?thesis
      proof (cases lt)
        case True
        then show ?thesis using \<open>pos > startpos\<close> Inr 1 [OF \<open>pos > startpos\<close> Inr True]
          by (simp add: siftdown_bucle.simps [of heap startpos pos] length_intercambiar)
      next
        case False
        then show ?thesis using \<open>pos > startpos\<close> Inr
          by (simp add: siftdown_bucle.simps [of heap startpos pos])
      qed
    qed
  qed
qed

lemma length_siftdown: "length (snd (siftdown heap startpos pos)) = length heap"
  by (simp add: siftdown_def length_siftdown_bucle)

lemma length_siftup_bucle: "length (snd (siftup_bucle heap endpos pos)) = length heap"
proof (induction heap endpos pos rule: siftup_bucle.induct)
  case (1 heap endpos pos)
  show ?case
  proof (cases "pos < endpos div 2")
    case False
    then show ?thesis by (simp add: siftup_bucle.simps [of heap endpos pos])
  next
    case c1: True
    show ?thesis
    proof (cases "2 * pos + 1 + 1 < endpos")
      case False
      then show ?thesis using c1 1(3) [OF c1 False]
        by (simp add: siftup_bucle.simps [of heap endpos pos] length_intercambiar)
    next
      case c2: True
      show ?thesis
      proof (cases "menor (heap ! (2 * pos + 1)) (heap ! (2 * pos + 1 + 1))")
        case (Inl e)
        then show ?thesis using c1 c2 by (simp add: siftup_bucle.simps [of heap endpos pos])
      next
        case (Inr lt)
        show ?thesis
        proof (cases lt)
          case True
          then show ?thesis using c1 c2 Inr 1(1) [OF c1 c2 Inr True]
            by (simp add: siftup_bucle.simps [of heap endpos pos] length_intercambiar)
        next
          case False
          then show ?thesis using c1 c2 Inr 1(2) [OF c1 c2 Inr False]
            by (simp add: siftup_bucle.simps [of heap endpos pos] length_intercambiar)
        qed
      qed
    qed
  qed
qed

lemma length_siftup: "length (snd (siftup heap pos)) = length heap"
proof (cases "pos \<ge> length heap")
  case True
  then show ?thesis by (simp add: siftup_def)
next
  case False
  obtain r h where h: "siftup_bucle heap (length heap) pos = (r, h)" by fastforce
  have l: "length h = length heap" using length_siftup_bucle [of heap "length heap" pos] h by simp
  show ?thesis
  proof (cases r)
    case (Inl e)
    then show ?thesis using False h l by (simp add: siftup_def)
  next
    case (Inr p)
    then show ?thesis using False h l length_siftdown [of h pos p] by (simp add: siftup_def)
  qed
qed

lemma length_heappop: "heap \<noteq> [] \<Longrightarrow> length (snd (heappop heap)) = length heap - 1"
proof -
  assume ne: "heap \<noteq> []"
  obtain r h where h: "siftup ((butlast heap)[0 := last heap]) 0 = (r, h)" by fastforce
  have l: "length h = length heap - 1"
    using length_siftup [of "(butlast heap)[0 := last heap]" 0] h by simp
  have b: "length (butlast heap) = length heap - 1" by simp
  show ?thesis
  proof (cases "butlast heap = []")
    case True
    then show ?thesis using ne b by (simp add: heappop_def)
  next
    case False
    then show ?thesis using ne h l by (cases r) (simp_all add: heappop_def)
  qed
qed

lemma length_procesar: "\<not> esta_vacia cola \<Longrightarrow> length (snd (procesar cola)) < length cola"
proof -
  assume "\<not> esta_vacia cola"
  then have ne: "cola \<noteq> []" by (simp add: esta_vacia_def)
  obtain r h where h: "heappop cola = (r, h)" by fastforce
  have "length h = length cola - 1" using length_heappop [OF ne] h by simp
  moreover have "length cola > 0" using ne by simp
  ultimately show ?thesis using ne h by (cases r) (simp_all add: procesar_def)
qed

text \<open>
  The loop of \<^verbatim>\<open>procesar_mensajes_prioritarios\<close>, with the lines printed so far: one line
  \<^verbatim>\<open>f" - {m.prioridad}: {m.asunto} (para {m.destinatario})"\<close> per message taken from the queue.
  An exception ends the loop with the lines printed before it.
\<close>

definition linea :: "Mensaje \<Rightarrow> string" where
  "linea m = '' - '' @ prioridad m @ '': '' @ asunto m @ '' (para '' @ destinatario m @ '')''"

function procesar_bucle ::
  "ColaPrioridades \<Rightarrow> string list \<Rightarrow> (error + unit) \<times> string list \<times> ColaPrioridades" where
  "procesar_bucle cola salida =
     (if esta_vacia cola then (Inr (), salida, cola)
      else (case procesar cola of
              (Inl e, cola') \<Rightarrow> (Inl e, salida, cola')
            | (Inr None, cola') \<Rightarrow>
                (Inl (AttributeError (comillas ''NoneType'' @ '' object has no attribute ''
                        @ comillas ''prioridad'')), salida, cola')
            | (Inr (Some m), cola') \<Rightarrow> procesar_bucle cola' (salida @ [linea m])))"
  by pat_completeness auto

termination procesar_bucle
proof (relation "measure (\<lambda>(cola, salida). length cola)")
  show "wf (measure (\<lambda>(cola, salida). length cola))" by simp
next
  fix cola :: ColaPrioridades and salida :: "string list" and x1 x2 b x2a
  assume "\<not> esta_vacia cola" and "(x1, x2) = procesar cola"
  then have "length x2 < length cola" using length_procesar [of cola] by (metis snd_conv)
  then show "((x2, salida @ [linea x2a]), (cola, salida)) \<in> measure (\<lambda>(cola, salida). length cola)"
    by simp
qed

declare procesar_bucle.simps [simp del]

section \<open>ServidorCorreo\<close>

text \<open>
  The dictionaries \<^verbatim>\<open>_usuarios\<close> (email to user) and \<^verbatim>\<open>_filtros\<close> (keyword to folder name) are
  association lists in insertion order with each key once; \<open>asignar\<close> is \<^verbatim>\<open>d[k] = v\<close>. A user
  object is reached through \<^verbatim>\<open>_usuarios\<close> only, so a change of a user is written back under
  the user's key.
\<close>

record ServidorCorreo =
  nombre_servidor :: string
  usuarios :: "(string \<times> Usuario) list"
  filtros :: "(string \<times> string) list"
  cola_prioridades :: ColaPrioridades

definition ServidorCorreo_init :: "string \<Rightarrow> ServidorCorreo" where
  "ServidorCorreo_init nom =
     \<lparr> nombre_servidor = nom, usuarios = [],
       filtros = [(''urgente'', ''Prioritarios''), (''oferta'', ''Promociones''),
                  (''universidad'', ''Academicos'')],
       cola_prioridades = [] \<rparr>"

fun asignar :: "(string \<times> 'v) list \<Rightarrow> string \<Rightarrow> 'v \<Rightarrow> (string \<times> 'v) list" where
  "asignar [] k v = [(k, v)]"
| "asignar ((k', v') # d) k v = (if k' = k then (k', v) # d else (k', v') # asignar d k v)"

definition registrar_usuario :: "ServidorCorreo \<Rightarrow> Usuario \<Rightarrow> (error + unit) \<times> ServidorCorreo" where
  "registrar_usuario s u =
     (if email u \<in> fst ` set (usuarios s)
      then (Inl (ValueError (''El email '' @ email u @ '' ya est'' @ [CHR 0xC3, CHR 0xA1]
                   @ '' registrado.'')), s)
      else (Inr (), s\<lparr> usuarios := asignar (usuarios s) (email u) u \<rparr>))"

definition obtener_usuario :: "ServidorCorreo \<Rightarrow> string \<Rightarrow> error + Usuario" where
  "obtener_usuario s correo =
     (case map_of (usuarios s) correo of
        None \<Rightarrow> Inl (ValueError (''No existe el usuario '' @ correo @ '' en el servidor ''
                        @ nombre_servidor s @ ''.''))
      | Some u \<Rightarrow> Inr u)"

definition agregar_filtro ::
  "(string \<Rightarrow> string) \<Rightarrow> ServidorCorreo \<Rightarrow> string \<Rightarrow> string \<Rightarrow> ServidorCorreo" where
  "agregar_filtro baja s palabra_clave carpeta_destino =
     s\<lparr> filtros := asignar (filtros s) (baja palabra_clave) carpeta_destino \<rparr>"

text \<open>
  \<^verbatim>\<open>usuario.obtener_carpeta(nom).agregar_mensaje(m)\<close>, as \<^verbatim>\<open>enviar\<close> and \<^verbatim>\<open>_aplicar_filtros\<close>
  call it: the folder \<open>nom\<close> under the user's root, created when absent, gets the message
  appended.
\<close>

definition guardar_en :: "Usuario \<Rightarrow> string \<Rightarrow> Mensaje \<Rightarrow> (error + unit) \<times> Usuario" where
  "guardar_en u nom m =
     (case obtener_carpeta u nom of
        (Inl e, u') \<Rightarrow> (Inl e, u')
      | (Inr x, u') \<Rightarrow>
          (Inr (), u'\<lparr> raiz := modificar_en (\<lambda>c. agregar_mensaje c m) [nom] (raiz u') \<rparr>))"

text \<open>
  \<^verbatim>\<open>_aplicar_filtros\<close>: the folder name is that of the first entry of the filter table, in
  its order, whose keyword occurs in \<^verbatim>\<open>(mensaje.asunto + " " + mensaje.cuerpo).lower()\<close>; it is
  \<^verbatim>\<open>"Entrada"\<close> when no keyword occurs. \<open>baja\<close> is \<^verbatim>\<open>str.lower\<close>.
\<close>

definition carpeta_destino_de ::
  "(string \<Rightarrow> string) \<Rightarrow> (string \<times> string) list \<Rightarrow> Mensaje \<Rightarrow> string" where
  "carpeta_destino_de baja fs m =
     (case find (\<lambda>(palabra, carpeta). str_in palabra (baja (asunto m @ '' '' @ cuerpo m))) fs of
        None \<Rightarrow> ''Entrada''
      | Some (palabra, carpeta) \<Rightarrow> carpeta)"

definition aplicar_filtros ::
  "(string \<Rightarrow> string) \<Rightarrow> ServidorCorreo \<Rightarrow> Mensaje \<Rightarrow> Usuario \<Rightarrow> (error + unit) \<times> Usuario" where
  "aplicar_filtros baja s m usuario_destino =
     guardar_en usuario_destino (carpeta_destino_de baja (filtros s) m) m"

text \<open>
  \<^verbatim>\<open>enviar\<close>: the copy in the sender's \<^verbatim>\<open>Enviados\<close> when the sender is registered here, then
  \<^verbatim>\<open>self._cola_prioridades.agregar(mensaje)\<close>, then the delivery inside \<^verbatim>\<open>try\<close>, whose
  \<^verbatim>\<open>except ValueError: pass\<close> absorbs a \<^verbatim>\<open>ValueError\<close> and no other exception. An exception of
  the second step leaves the method before the delivery. \<open>baja\<close> is \<^verbatim>\<open>str.lower\<close>, which
  \<^verbatim>\<open>_aplicar_filtros\<close> calls.
\<close>

definition enviar ::
  "(string \<Rightarrow> string) \<Rightarrow> ServidorCorreo \<Rightarrow> Mensaje \<Rightarrow> (error + unit) \<times> ServidorCorreo" where
  "enviar baja s m =
     (case (case map_of (usuarios s) (remitente m) of
              None \<Rightarrow> (Inr (), s)
            | Some rem \<Rightarrow>
                (case guardar_en rem ''Enviados'' m of
                   (r, rem') \<Rightarrow> (r, s\<lparr> usuarios := asignar (usuarios s) (remitente m) rem' \<rparr>))) of
        (Inl e, s1) \<Rightarrow> (Inl e, s1)
      | (Inr x, s1) \<Rightarrow>
          (case agregar (cola_prioridades s1) m of
             (Inl e, cola) \<Rightarrow> (Inl e, s1\<lparr> cola_prioridades := cola \<rparr>)
           | (Inr y, cola) \<Rightarrow>
               (case obtener_usuario (s1\<lparr> cola_prioridades := cola \<rparr>) (destinatario m) of
                  Inl (ValueError t) \<Rightarrow> (Inr (), s1\<lparr> cola_prioridades := cola \<rparr>)
                | Inl e \<Rightarrow> (Inl e, s1\<lparr> cola_prioridades := cola \<rparr>)
                | Inr dest \<Rightarrow>
                    (case aplicar_filtros baja (s1\<lparr> cola_prioridades := cola \<rparr>) m dest of
                       (r, dest') \<Rightarrow>
                         (case r of Inl (ValueError t) \<Rightarrow> Inr () | Inl e \<Rightarrow> Inl e | Inr z \<Rightarrow> Inr (),
                          s1\<lparr> cola_prioridades := cola,
                              usuarios := asignar (usuarios s1) (destinatario m) dest' \<rparr>)))))"

text \<open>
  \<^verbatim>\<open>procesar_mensajes_prioritarios\<close> prints a line break followed by the heading, that is
  an empty line and the heading, and then runs the loop.
\<close>

definition procesar_mensajes_prioritarios ::
  "ServidorCorreo \<Rightarrow> (error + unit) \<times> string list \<times> ServidorCorreo" where
  "procesar_mensajes_prioritarios s =
     (case procesar_bucle (cola_prioridades s) [[], ''Procesando mensajes por prioridad:''] of
        (r, salida, cola) \<Rightarrow> (r, salida, s\<lparr> cola_prioridades := cola \<rparr>))"

section \<open>RedServidores: the graph of servers\<close>

text \<open>
  \<^verbatim>\<open>_conexiones\<close> is a dictionary from a server name to the list of its neighbours, kept here
  as an association list in insertion order with each key once. \<^verbatim>\<open>conectar\<close> and \<^verbatim>\<open>bfs\<close> read
  and write this dictionary only; \<^verbatim>\<open>agregar_servidor\<close> also stores the server object under its
  name in \<^verbatim>\<open>_servidores\<close>, which the search never reads, so the functions below take the
  dictionary of connections and the name.
\<close>

type_synonym conexiones = "(string \<times> string list) list"

text \<open>\<^verbatim>\<open>self._conexiones.get(actual, [])\<close>.\<close>

definition vecinos :: "conexiones \<Rightarrow> string \<Rightarrow> string list" where
  "vecinos con a = (case map_of con a of None \<Rightarrow> [] | Some vs \<Rightarrow> vs)"

text \<open>\<^verbatim>\<open>self._conexiones.setdefault(a, []).append(b)\<close>.\<close>

fun setdefault_append :: "conexiones \<Rightarrow> string \<Rightarrow> string \<Rightarrow> conexiones" where
  "setdefault_append [] a b = [(a, [b])]"
| "setdefault_append ((k, vs) # con) a b =
     (if k = a then (k, vs @ [b]) # con else (k, vs) # setdefault_append con a b)"

text \<open>\<^verbatim>\<open>self._conexiones.setdefault(servidor.nombre, [])\<close>.\<close>

definition agregar_servidor :: "conexiones \<Rightarrow> string \<Rightarrow> conexiones" where
  "agregar_servidor con nom =
     (case map_of con nom of None \<Rightarrow> con @ [(nom, [])] | Some vs \<Rightarrow> con)"

definition conectar :: "conexiones \<Rightarrow> string \<Rightarrow> string \<Rightarrow> conexiones" where
  "conectar con a b = setdefault_append (setdefault_append con a b) b a"

lemma vecinos_sin_clave: "a \<notin> fst ` set con \<Longrightarrow> vecinos con a = []"
  by (simp add: vecinos_def map_of_eq_None_iff [THEN iffD2])

text \<open>
  The loop of \<^verbatim>\<open>bfs\<close>. The queue holds pairs of a server name and the path that led to it;
  \<^verbatim>\<open>cola.pop(0)\<close> takes its head. The destination test comes first, then the visited test
  (\<^verbatim>\<open>continue\<close>), then the node is marked and each neighbour not yet visited is appended
  with the path extended by it. An empty queue ends the loop and the method returns \<^verbatim>\<open>None\<close>.
\<close>

function bfs_bucle ::
  "conexiones \<Rightarrow> string \<Rightarrow> string set \<Rightarrow> (string \<times> string list) list \<Rightarrow> string list option" where
  "bfs_bucle con destino visitados [] = None"
| "bfs_bucle con destino visitados ((actual, camino) # cola) =
     (if actual = destino then Some camino
      else if actual \<in> visitados then bfs_bucle con destino visitados cola
      else bfs_bucle con destino (insert actual visitados)
             (cola @ map (\<lambda>vecino. (vecino, camino @ [vecino]))
                       (filter (\<lambda>vecino. vecino \<notin> insert actual visitados) (vecinos con actual))))"
  by pat_completeness auto

termination bfs_bucle
proof (relation "inv_image (less_than <*lex*> less_than)
         (\<lambda>(con, destino, visitados, cola). (card (fst ` set con - visitados), length cola))")
  show "wf (inv_image (less_than <*lex*> less_than)
         (\<lambda>(con, destino, visitados, cola). (card (fst ` set con - visitados), length cola)))"
    by (intro wf_inv_image wf_lex_prod wf_less_than)
next
  fix con :: conexiones and destino actual :: string and visitados camino cola
  show "((con, destino, visitados, cola), (con, destino, visitados, (actual, camino) # cola))
    \<in> inv_image (less_than <*lex*> less_than)
         (\<lambda>(con, destino, visitados, cola). (card (fst ` set con - visitados), length cola))"
    by simp
next
  fix con :: conexiones and destino actual :: string and visitados :: "string set"
    and camino :: "string list" and cola :: "(string \<times> string list) list"
  assume nv: "actual \<notin> visitados"
  let ?nuevos = "map (\<lambda>vecino. (vecino, camino @ [vecino]))
                       (filter (\<lambda>vecino. vecino \<notin> insert actual visitados) (vecinos con actual))"
  show "((con, destino, insert actual visitados, cola @ ?nuevos),
         (con, destino, visitados, (actual, camino) # cola))
    \<in> inv_image (less_than <*lex*> less_than)
         (\<lambda>(con, destino, visitados, cola). (card (fst ` set con - visitados), length cola))"
  proof (cases "actual \<in> fst ` set con")
    case True
    have fin: "finite (fst ` set con - visitados)" by simp
    have eq: "fst ` set con - insert actual visitados = (fst ` set con - visitados) - {actual}"
      by auto
    have mem: "actual \<in> fst ` set con - visitados" using True nv by simp
    have "card ((fst ` set con - visitados) - {actual}) < card (fst ` set con - visitados)"
      using fin mem by (rule card_Diff1_less)
    then have "card (fst ` set con - insert actual visitados) < card (fst ` set con - visitados)"
      by (simp only: eq)
    then show ?thesis by simp
  next
    case False
    then have "vecinos con actual = []" by (rule vecinos_sin_clave)
    moreover have "fst ` set con - insert actual visitados = fst ` set con - visitados"
      using False by auto
    ultimately show ?thesis by simp
  qed
qed

text \<open>\<^verbatim>\<open>bfs\<close> starts the loop with no visited node and the origin queued with the path \<^verbatim>\<open>[origen]\<close>.\<close>

definition bfs :: "conexiones \<Rightarrow> string \<Rightarrow> string \<Rightarrow> string list option" where
  "bfs con origen destino = bfs_bucle con destino {} [(origen, [origen])]"

section \<open>Carpeta.mensajes and the identity of list objects\<close>

text \<open>
  The tree above holds the messages of a folder as a value. What a caller can do with the list
  returned by \<^verbatim>\<open>mensajes()\<close> depends on which list object it is, so here list objects live
  in a store: an address is a position of the store, \<^verbatim>\<open>list(...)\<close> and \<^verbatim>\<open>[]\<close> allocate at its end,
  and a folder object holds the address of its \<^verbatim>\<open>_mensajes\<close>. Every in-place method of a list
  (\<^verbatim>\<open>append\<close>, \<^verbatim>\<open>remove\<close>, \<^verbatim>\<open>sort\<close>, \<^verbatim>\<open>reverse\<close>, \<^verbatim>\<open>clear\<close>, item assignment) replaces the
  contents at one address by a function of the old contents: that is \<open>mutar\<close>.
  \<^verbatim>\<open>agregar_mensaje\<close> is \<^verbatim>\<open>self._mensajes.append(mensaje)\<close> and \<^verbatim>\<open>mensajes\<close> is
  \<^verbatim>\<open>return list(self._mensajes)\<close>.
\<close>

type_synonym almacen = "Mensaje list list"

record Carpeta_obj =
  nombre_obj :: string
  ref_mensajes :: nat

definition lista_nueva :: "almacen \<Rightarrow> Mensaje list \<Rightarrow> nat \<times> almacen" where
  "lista_nueva st xs = (length st, st @ [xs])"

definition mutar :: "almacen \<Rightarrow> nat \<Rightarrow> (Mensaje list \<Rightarrow> Mensaje list) \<Rightarrow> almacen" where
  "mutar st a f = st[a := f (st ! a)]"

definition Carpeta_obj_init :: "almacen \<Rightarrow> string \<Rightarrow> Carpeta_obj \<times> almacen" where
  "Carpeta_obj_init st nom =
     (case lista_nueva st [] of (a, st') \<Rightarrow> (\<lparr> nombre_obj = nom, ref_mensajes = a \<rparr>, st'))"

definition agregar_mensaje_obj :: "almacen \<Rightarrow> Carpeta_obj \<Rightarrow> Mensaje \<Rightarrow> almacen" where
  "agregar_mensaje_obj st c m = mutar st (ref_mensajes c) (\<lambda>xs. xs @ [m])"

definition mensajes_obj :: "almacen \<Rightarrow> Carpeta_obj \<Rightarrow> nat \<times> almacen" where
  "mensajes_obj st c = lista_nueva st (st ! ref_mensajes c)"

section \<open>Reference notions used in the statements\<close>

text \<open>\<^verbatim>\<open>"/".join(parts)\<close>, the inverse of splitting on the slash.\<close>

fun unir :: "string list \<Rightarrow> string" where
  "unir [] = []"
| "unir [p] = p"
| "unir (p # q # ps) = p @ CHR ''/'' # unir (q # ps)"

text \<open>A small folder tree on which the general statements are instantiated.\<close>

definition arbol_ejemplo :: Carpeta where
  "arbol_ejemplo =
     Carpeta ''Root'' []
       [(''Entrada'', Carpeta ''Entrada'' [] [(''Trabajo'', Carpeta ''Trabajo'' [] [])]),
        (''Enviados'', Carpeta ''Enviados'' [] [])]"


text \<open>
  On a text of ASCII characters \<^verbatim>\<open>str.lower\<close> replaces each of the letters A to Z by its small
  letter and keeps every other character. \<open>lower_ascii\<close> is that function; it stands for
  \<^verbatim>\<open>str.lower\<close> in the examples, whose texts are all ASCII, and nowhere else.
\<close>

definition lower_ascii_char :: "char \<Rightarrow> char" where
  "lower_ascii_char c =
     (case map_of (zip ''ABCDEFGHIJKLMNOPQRSTUVWXYZ'' ''abcdefghijklmnopqrstuvwxyz'') c of
        None \<Rightarrow> c
      | Some d \<Rightarrow> d)"

definition lower_ascii :: "string \<Rightarrow> string" where
  "lower_ascii s = map lower_ascii_char s"


text \<open>Two messages, and a tree whose inbox holds the first of them twice.\<close>

definition mensaje_a :: Mensaje where
  "mensaje_a = \<lparr> id_msg = ''a'', remitente = ''luis@mail.com'', destinatario = ''luis@mail.com'',
                  asunto = ''Nota'', cuerpo = ''uno'', fecha = 0, leido = False, prioridad = ''Media'' \<rparr>"

definition mensaje_b :: Mensaje where
  "mensaje_b = \<lparr> id_msg = ''b'', remitente = ''ana@mail.com'', destinatario = ''luis@mail.com'',
                  asunto = ''Acta'', cuerpo = ''dos'', fecha = 1, leido = False, prioridad = ''Media'' \<rparr>"

definition arbol_repetido :: Carpeta where
  "arbol_repetido =
     Carpeta ''Root'' []
       [(''Entrada'', Carpeta ''Entrada'' [mensaje_a, mensaje_b, mensaje_a] []),
        (''Enviados'', Carpeta ''Enviados'' [] [])]"

text \<open>
  A path of the graph: a non-empty list of names in which each name is followed by one of its
  neighbours. \<open>camino_entre\<close> fixes its two ends; its number of edges is its length less one.
\<close>

fun es_camino :: "conexiones \<Rightarrow> string list \<Rightarrow> bool" where
  "es_camino con [] = False"
| "es_camino con [a] = True"
| "es_camino con (a # b # r) = (b \<in> set (vecinos con a) \<and> es_camino con (b # r))"

definition camino_entre :: "conexiones \<Rightarrow> string \<Rightarrow> string \<Rightarrow> string list \<Rightarrow> bool" where
  "camino_entre con origen destino p = (es_camino con p \<and> hd p = origen \<and> last p = destino)"

definition num_aristas :: "string list \<Rightarrow> nat" where
  "num_aristas p = length p - 1"

text \<open>
  Two properties of the queue that the loop of \<open>bfs\<close> maintains: the queued paths come in
  non-decreasing length and differ by at most one, and every path \<open>q\<close> to the destination has a
  position from which it is unvisited and whose node is queued with a path no longer than the
  prefix of \<open>q\<close> up to it.
\<close>

definition ordenada :: "(string \<times> string list) list \<Rightarrow> bool" where
  "ordenada cola = (\<exists>m. sorted (map (\<lambda>x. length (snd x)) cola)
        \<and> (\<forall>x \<in> set cola. m \<le> length (snd x) \<and> length (snd x) \<le> Suc m))"

definition frontera :: "string list \<Rightarrow> string set \<Rightarrow> (string \<times> string list) list \<Rightarrow> bool" where
  "frontera q visitados cola = (\<exists>i < length q. (\<forall>k. i \<le> k \<and> k < length q \<longrightarrow> q ! k \<notin> visitados)
        \<and> (\<exists>p. (q ! i, p) \<in> set cola \<and> length p \<le> Suc i))"

text \<open>The graph with the edges A-C and C-B, and one with a longer second route A-E-F-B.\<close>

definition red_ejemplo :: conexiones where
  "red_ejemplo = conectar (conectar [] ''A'' ''C'') ''C'' ''B''"

definition red_dos_rutas :: conexiones where
  "red_dos_rutas =
     conectar (conectar (conectar (conectar (conectar [] ''A'' ''E'') ''E'' ''F'') ''F'' ''B'')
       ''A'' ''C'') ''C'' ''B''"

text \<open>A folder object created in an empty store, to which two messages are then added.\<close>

definition carpeta_con_dos :: "Carpeta_obj \<times> almacen" where
  "carpeta_con_dos =
     (case Carpeta_obj_init [] ''Entrada'' of (c, st) \<Rightarrow>
        (c, agregar_mensaje_obj (agregar_mensaje_obj st c mensaje_a) c mensaje_b))"

text \<open>
  Three messages from Luis to Ana, one of high and two of medium priority; a server with
  both users registered; the queue after the three were added; and the messages of a named
  folder of a registered user.
\<close>

definition mensaje_alta :: Mensaje where
  "mensaje_alta = \<lparr> id_msg = ''c'', remitente = ''luis@mail.com'', destinatario = ''ana@mail.com'',
                  asunto = ''Informe'', cuerpo = ''tres'', fecha = 2, leido = False, prioridad = ''Alta'' \<rparr>"

definition mensaje_d :: Mensaje where
  "mensaje_d = \<lparr> id_msg = ''d'', remitente = ''luis@mail.com'', destinatario = ''ana@mail.com'',
                  asunto = ''Acta'', cuerpo = ''cuatro'', fecha = 3, leido = False, prioridad = ''Media'' \<rparr>"

definition mensaje_e :: Mensaje where
  "mensaje_e = \<lparr> id_msg = ''e'', remitente = ''luis@mail.com'', destinatario = ''ana@mail.com'',
                  asunto = ''Nota'', cuerpo = ''cinco'', fecha = 4, leido = False, prioridad = ''Media'' \<rparr>"

definition servidor_dos_usuarios :: ServidorCorreo where
  "servidor_dos_usuarios =
     snd (registrar_usuario
            (snd (registrar_usuario (ServidorCorreo_init ''S'') (Usuario_init ''Luis'' ''luis@mail.com'')))
            (Usuario_init ''Ana'' ''ana@mail.com''))"

definition cola_tres :: ColaPrioridades where
  "cola_tres = [(1, mensaje_alta), (2, mensaje_d), (2, mensaje_e)]"

definition mensajes_en :: "ServidorCorreo \<Rightarrow> string \<Rightarrow> string \<Rightarrow> Mensaje list" where
  "mensajes_en s correo nom =
     (case map_of (usuarios s) correo of
        None \<Rightarrow> []
      | Some u \<Rightarrow> (case obtener_subcarpeta (raiz u) nom of None \<Rightarrow> [] | Some c \<Rightarrow> mensajes c))"

section \<open>Composing a message\<close>

text \<open>
  Claim C7. Constructing a message, directly or through \<^verbatim>\<open>Usuario.redactar\<close>, fails
  exactly when the recipient is the empty string. A priority outside Alta, Media, Baja is
  not rejected: for a non-empty recipient the message is built with the sender's email as
  its sender and with priority Media, in particular for the priority Urgent.
\<close>

theorem construccion_mensaje:
  "(isl (Mensaje_init uuid now rem dest asu cue pri) \<longleftrightarrow> dest = []) \<and>
   (isl (redactar u uuid now dest asu cue pri) \<longleftrightarrow> dest = []) \<and>
   (dest \<noteq> [] \<and> pri \<notin> {''Alta'', ''Media'', ''Baja''} \<longrightarrow>
      (\<exists>m. redactar u uuid now dest asu cue pri = Inr m \<and> prioridad m = ''Media''
           \<and> destinatario m = dest \<and> remitente m = email u)) \<and>
   (dest \<noteq> [] \<longrightarrow>
      (\<exists>m. redactar u uuid now dest asu cue ''Urgent'' = Inr m \<and> prioridad m = ''Media''))"
  by (simp add: Mensaje_init_def redactar_def)

theorem construccion_mensaje_witness:
  "redactar (Usuario_init ''Luis'' ''luis@mail.com'') ''u1'' 0 ''ana@b.com'' ''Hola'' ''x'' ''Urgent''
     = Inr \<lparr> id_msg = ''u1'', remitente = ''luis@mail.com'', destinatario = ''ana@b.com'',
             asunto = ''Hola'', cuerpo = ''x'', fecha = 0, leido = False, prioridad = ''Media'' \<rparr>
   \<and> isl (redactar (Usuario_init ''Luis'' ''luis@mail.com'') ''u2'' 0 [] ''Hola'' ''x'' ''Alta'')"
  using construccion_mensaje [of "''u1''" 0 "''luis@mail.com''" "''ana@b.com''" "''Hola''" "''x''" "''Urgent''"
      "Usuario_init ''Luis'' ''luis@mail.com''"]
    construccion_mensaje [of "''u2''" 0 "''luis@mail.com''" "[]" "''Hola''" "''x''" "''Alta''"
      "Usuario_init ''Luis'' ''luis@mail.com''"]
  by (simp add: Mensaje_init_def redactar_def Usuario_init_def)

section \<open>Resolving a path\<close>

lemma split_slash_not_Nil: "split_slash s \<noteq> []"
  by (induction s) (auto split: list.splits)

lemma unir_split_slash: "unir (split_slash s) = s"
proof (induction s)
  case Nil
  show ?case by simp
next
  case (Cons c cs)
  obtain p ps where sp: "split_slash cs = p # ps"
    using split_slash_not_Nil [of cs] by (cases "split_slash cs") auto
  with Cons show ?case by (cases ps) auto
qed

lemma split_slash_sin_barra: "p \<in> set (split_slash s) \<Longrightarrow> CHR ''/'' \<notin> set p"
  by (induction s arbitrary: p) (auto split: if_splits list.splits)

lemma strip_slash_solo_barras: "set s \<subseteq> {CHR ''/''} \<Longrightarrow> strip_slash s = []"
proof -
  assume "set s \<subseteq> {CHR ''/''}"
  then have h: "dropWhile (\<lambda>c. c = CHR ''/'') s = []"
    by (induction s) auto
  show ?thesis by (simp only: strip_slash_def h rev.simps dropWhile.simps)
qed

lemma rev_dropWhile_takeWhile:
  "rev (dropWhile P (rev ys)) @ rev (takeWhile P (rev ys)) = ys"
proof -
  have "rev (takeWhile P (rev ys) @ dropWhile P (rev ys)) = rev (rev ys)"
    by (simp only: takeWhile_dropWhile_id)
  then show ?thesis by (simp only: rev_append rev_rev_ident)
qed

lemma strip_slash_partes:
  "s = takeWhile (\<lambda>c. c = CHR ''/'') s @ strip_slash s
         @ rev (takeWhile (\<lambda>c. c = CHR ''/'') (rev (dropWhile (\<lambda>c. c = CHR ''/'') s)))"
proof -
  have "strip_slash s @ rev (takeWhile (\<lambda>c. c = CHR ''/'') (rev (dropWhile (\<lambda>c. c = CHR ''/'') s)))
          = dropWhile (\<lambda>c. c = CHR ''/'') s"
    unfolding strip_slash_def by (rule rev_dropWhile_takeWhile)
  then show ?thesis by (simp only: takeWhile_dropWhile_id)
qed

lemma last_dropWhile: "dropWhile P xs \<noteq> [] \<Longrightarrow> last (dropWhile P xs) = last xs"
  by (induction xs) (auto split: if_splits)

lemma strip_slash_extremos:
  assumes "strip_slash s \<noteq> []"
  shows "hd (strip_slash s) \<noteq> CHR ''/'' \<and> last (strip_slash s) \<noteq> CHR ''/''"
proof -
  define t where "t = dropWhile (\<lambda>c. c = CHR ''/'') s"
  define r where "r = dropWhile (\<lambda>c. c = CHR ''/'') (rev t)"
  have st: "strip_slash s = rev r" by (simp add: strip_slash_def r_def t_def)
  with assms have rne: "r \<noteq> []" by simp
  then have tne: "t \<noteq> []" by (auto simp: r_def)
  have "hd r \<noteq> CHR ''/''" using rne hd_dropWhile [of "\<lambda>c. c = CHR ''/''" "rev t"] by (simp add: r_def)
  then have l: "last (rev r) \<noteq> CHR ''/''" using rne by (simp add: last_rev)
  have "last r = last (rev t)" using rne unfolding r_def by (rule last_dropWhile)
  then have "hd (rev r) = hd t" using rne tne by (simp add: hd_rev last_rev)
  moreover have "hd t \<noteq> CHR ''/''"
    using tne hd_dropWhile [of "\<lambda>c. c = CHR ''/''" s] by (simp add: t_def)
  ultimately show ?thesis using l st by simp
qed

lemma recorrer_carpeta_en:
  "carpeta_en c ps = Some d \<Longrightarrow> recorrer ruta c ps = Inr d"
  by (induction ps arbitrary: c) (auto split: option.splits)

lemma recorrer_Inr: "recorrer ruta c ps = Inr d \<Longrightarrow> carpeta_en c ps = Some d"
  by (induction ps arbitrary: c) (auto split: option.splits)

lemma recorrer_primera_ausente:
  "carpeta_en c pre = Some d \<Longrightarrow> obtener_subcarpeta d p = None \<Longrightarrow>
   recorrer ruta c (pre @ p # post) = Inl (no_existe p ruta)"
  by (induction pre arbitrary: c) (auto split: option.splits)

lemma size_hijo: "map_of subs p = Some s \<Longrightarrow> size s < Suc (size_list (size_prod (\<lambda>x. 0) size) subs)"
  by (induction subs) (auto split: if_splits)

lemma size_obtener_subcarpeta: "obtener_subcarpeta c p = Some s \<Longrightarrow> size s < size c"
  by (cases c) (auto simp: obtener_subcarpeta_def dest: size_hijo)

lemma size_carpeta_en: "carpeta_en c ps = Some d \<Longrightarrow> ps \<noteq> [] \<Longrightarrow> size d < size c"
proof (induction ps arbitrary: c)
  case Nil
  then show ?case by simp
next
  case (Cons p ps)
  then obtain s where s: "obtener_subcarpeta c p = Some s" and d: "carpeta_en s ps = Some d"
    by (auto split: option.splits)
  show ?case
  proof (cases ps)
    case Nil
    with d s show ?thesis by (auto dest: size_obtener_subcarpeta)
  next
    case (Cons q qs)
    with Cons.IH [OF d] have "size d < size s" by simp
    with size_obtener_subcarpeta [OF s] show ?thesis by simp
  qed
qed


lemma recorrer_Inl:
  "recorrer ruta c ps = Inl e \<Longrightarrow>
   \<exists>pre p post d. ps = pre @ p # post \<and> carpeta_en c pre = Some d
       \<and> obtener_subcarpeta d p = None \<and> e = no_existe p ruta"
proof (induction ps arbitrary: c)
  case Nil
  then show ?case by simp
next
  case (Cons q qs)
  show ?case
  proof (cases "obtener_subcarpeta c q")
    case None
    with Cons.prems have "e = no_existe q ruta" by simp
    with None have "q # qs = [] @ q # qs \<and> carpeta_en c [] = Some c
        \<and> obtener_subcarpeta c q = None \<and> e = no_existe q ruta" by simp
    then show ?thesis by blast
  next
    case (Some s)
    with Cons.prems have "recorrer ruta s qs = Inl e" by simp
    from Cons.IH [OF this] obtain pre p post d where
      h: "qs = pre @ p # post" "carpeta_en s pre = Some d"
         "obtener_subcarpeta d p = None" "e = no_existe p ruta" by blast
    with Some have "q # qs = (q # pre) @ p # post \<and> carpeta_en c (q # pre) = Some d
        \<and> obtener_subcarpeta d p = None \<and> e = no_existe p ruta" by simp
    then show ?thesis by blast
  qed
qed

lemma raiz_nueva:
  "raiz (Usuario_init nom correo) =
     Carpeta ''Root'' []
       [(''Entrada'', Carpeta ''Entrada'' [] []), (''Enviados'', Carpeta ''Enviados'' [] []),
        (''Prioritarios'', Carpeta ''Prioritarios'' [] [])]"
  by (simp add: Usuario_init_def crear_subcarpeta_def Carpeta_init_def)

text \<open>
  Claim C6. \<^verbatim>\<open>obtener_por_ruta\<close> drops the slashes at both ends of the path, splits the
  rest on the slash and walks from the root one child per piece. It returns the folder the
  pieces lead to, exactly when they lead to one; otherwise it fails with the error that
  names the first piece with no matching child (every piece before it was found). It only
  reads the tree. For a fresh user the path Entrada gives the inbox and the path NoExiste
  fails naming NoExiste.
\<close>

theorem resolucion_de_ruta:
  "(carpeta_en r (split_slash (strip_slash ruta)) = Some c \<longrightarrow> obtener_por_ruta r ruta = Inr c) \<and>
   (obtener_por_ruta r ruta = Inr c \<longrightarrow> carpeta_en r (split_slash (strip_slash ruta)) = Some c) \<and>
   (split_slash (strip_slash ruta) = pre @ p # post \<and> carpeta_en r pre = Some d
      \<and> obtener_subcarpeta d p = None \<longrightarrow> obtener_por_ruta r ruta = Inl (no_existe p ruta)) \<and>
   (obtener_por_ruta r ruta = Inl e \<longrightarrow>
      (\<exists>pre p post d. split_slash (strip_slash ruta) = pre @ p # post \<and> carpeta_en r pre = Some d
          \<and> obtener_subcarpeta d p = None \<and> e = no_existe p ruta)) \<and>
   ruta = takeWhile (\<lambda>c. c = CHR ''/'') ruta @ strip_slash ruta
            @ rev (takeWhile (\<lambda>c. c = CHR ''/'') (rev (dropWhile (\<lambda>c. c = CHR ''/'') ruta))) \<and>
   (strip_slash ruta \<noteq> [] \<longrightarrow>
      hd (strip_slash ruta) \<noteq> CHR ''/'' \<and> last (strip_slash ruta) \<noteq> CHR ''/'') \<and>
   unir (split_slash (strip_slash ruta)) = strip_slash ruta \<and>
   (\<forall>q \<in> set (split_slash (strip_slash ruta)). CHR ''/'' \<notin> set q) \<and>
   obtener_por_ruta (raiz (Usuario_init nom correo)) ''Entrada'' = Inr (Carpeta ''Entrada'' [] []) \<and>
   obtener_por_ruta (raiz (Usuario_init nom correo)) ''NoExiste''
     = Inl (no_existe ''NoExiste'' ''NoExiste'')"
proof -
  have 1: "carpeta_en r (split_slash (strip_slash ruta)) = Some c \<longrightarrow> obtener_por_ruta r ruta = Inr c"
    by (simp add: obtener_por_ruta_def recorrer_carpeta_en)
  have 2: "obtener_por_ruta r ruta = Inr c \<longrightarrow> carpeta_en r (split_slash (strip_slash ruta)) = Some c"
    by (simp add: obtener_por_ruta_def recorrer_Inr)
  have 3: "split_slash (strip_slash ruta) = pre @ p # post \<and> carpeta_en r pre = Some d
      \<and> obtener_subcarpeta d p = None \<longrightarrow> obtener_por_ruta r ruta = Inl (no_existe p ruta)"
    by (simp add: obtener_por_ruta_def recorrer_primera_ausente)
  have 4: "obtener_por_ruta r ruta = Inl e \<longrightarrow>
      (\<exists>pre p post d. split_slash (strip_slash ruta) = pre @ p # post \<and> carpeta_en r pre = Some d
          \<and> obtener_subcarpeta d p = None \<and> e = no_existe p ruta)"
    unfolding obtener_por_ruta_def using recorrer_Inl by blast
  have 5: "strip_slash ruta \<noteq> [] \<longrightarrow>
      hd (strip_slash ruta) \<noteq> CHR ''/'' \<and> last (strip_slash ruta) \<noteq> CHR ''/''"
    using strip_slash_extremos by blast
  have 6: "\<forall>q \<in> set (split_slash (strip_slash ruta)). CHR ''/'' \<notin> set q"
    using split_slash_sin_barra by blast
  have 7: "obtener_por_ruta (raiz (Usuario_init nom correo)) ''Entrada'' = Inr (Carpeta ''Entrada'' [] [])"
    by (simp add: raiz_nueva obtener_por_ruta_def strip_slash_def obtener_subcarpeta_def)
  have 8: "obtener_por_ruta (raiz (Usuario_init nom correo)) ''NoExiste''
     = Inl (no_existe ''NoExiste'' ''NoExiste'')"
    by (simp add: raiz_nueva obtener_por_ruta_def strip_slash_def obtener_subcarpeta_def)
  from 1 2 3 4 5 6 7 8 strip_slash_partes [of ruta] unir_split_slash [of "strip_slash ruta"]
  show ?thesis by (intro conjI)
qed

theorem resolucion_de_ruta_witness:
  "obtener_por_ruta arbol_ejemplo ''/Entrada/Trabajo/'' = Inr (Carpeta ''Trabajo'' [] []) \<and>
   obtener_por_ruta arbol_ejemplo ''Entrada/Otra/Trabajo'' = Inl (no_existe ''Otra'' ''Entrada/Otra/Trabajo'') \<and>
   hd (strip_slash ''/Entrada/Trabajo/'') = CHR ''E'' \<and>
   split_slash (strip_slash ''/Entrada/Trabajo/'') = [''Entrada'', ''Trabajo'']"
  using resolucion_de_ruta [of arbol_ejemplo "''/Entrada/Trabajo/''" "Carpeta ''Trabajo'' [] []"
      "[]" "''Entrada''" "[''Trabajo'']" arbol_ejemplo "ValueError []" "''n''" "''c''"]
    resolucion_de_ruta [of arbol_ejemplo "''Entrada/Otra/Trabajo''" "Carpeta ''Trabajo'' [] []"
      "[''Entrada'']" "''Otra''" "[''Trabajo'']"
      "Carpeta ''Entrada'' [] [(''Trabajo'', Carpeta ''Trabajo'' [] [])]" "ValueError []" "''n''" "''c''"]
  by (simp add: arbol_ejemplo_def strip_slash_def obtener_subcarpeta_def)

text \<open>
  Claim C10. For the empty path and for a path made of slashes only, the pieces are the one
  empty name; the lookup of that name below the root fails with an error naming the empty
  name, unless the root has a child with the empty name, which is then returned. No path
  makes \<^verbatim>\<open>obtener_por_ruta\<close> return the root itself, and the tree of a fresh user has no
  child with the empty name.
\<close>

theorem ruta_de_solo_barras:
  "(set ruta \<subseteq> {CHR ''/''} \<longrightarrow>
      split_slash (strip_slash ruta) = [[]] \<and>
      (obtener_subcarpeta r [] = None \<longrightarrow> obtener_por_ruta r ruta = Inl (no_existe [] ruta)) \<and>
      (obtener_subcarpeta r [] = Some c \<longrightarrow> obtener_por_ruta r ruta = Inr c)) \<and>
   obtener_por_ruta r otra \<noteq> Inr r \<and>
   obtener_subcarpeta (raiz (Usuario_init nom correo)) [] = None"
proof -
  have a: "set ruta \<subseteq> {CHR ''/''} \<longrightarrow>
      split_slash (strip_slash ruta) = [[]] \<and>
      (obtener_subcarpeta r [] = None \<longrightarrow> obtener_por_ruta r ruta = Inl (no_existe [] ruta)) \<and>
      (obtener_subcarpeta r [] = Some c \<longrightarrow> obtener_por_ruta r ruta = Inr c)"
    by (simp add: strip_slash_solo_barras obtener_por_ruta_def)
  have b: "obtener_por_ruta r otra \<noteq> Inr r"
  proof
    assume "obtener_por_ruta r otra = Inr r"
    then have "carpeta_en r (split_slash (strip_slash otra)) = Some r"
      by (simp add: obtener_por_ruta_def recorrer_Inr)
    from size_carpeta_en [OF this split_slash_not_Nil] show False by simp
  qed
  have c: "obtener_subcarpeta (raiz (Usuario_init nom correo)) [] = None"
    by (simp add: raiz_nueva obtener_subcarpeta_def)
  from a b c show ?thesis by (intro conjI)
qed

theorem ruta_de_solo_barras_witness:
  "obtener_por_ruta (raiz (Usuario_init ''Luis'' ''luis@mail.com'')) ''//'' = Inl (no_existe [] ''//'') \<and>
   obtener_por_ruta (raiz (Usuario_init ''Luis'' ''luis@mail.com'')) [] = Inl (no_existe [] []) \<and>
   obtener_por_ruta (Carpeta ''Root'' [] [([], Carpeta [] [] [])]) ''/'' = Inr (Carpeta [] [] [])"
  using ruta_de_solo_barras [of "''//''" "raiz (Usuario_init ''Luis'' ''luis@mail.com'')"
      "Carpeta [] [] []" "[]" "''Luis''" "''luis@mail.com''"]
    ruta_de_solo_barras [of "[]" "raiz (Usuario_init ''Luis'' ''luis@mail.com'')"
      "Carpeta [] [] []" "[]" "''Luis''" "''luis@mail.com''"]
    ruta_de_solo_barras [of "''/''" "Carpeta ''Root'' [] [([], Carpeta [] [] [])]"
      "Carpeta [] [] []" "[]" "''Luis''" "''luis@mail.com''"]
  by (simp add: obtener_subcarpeta_def)

section \<open>Recursive search\<close>










section \<open>Moving a message\<close>

lemma map_of_cambiar_hijo_mismo:
  "map_of (cambiar_hijo p f subs) p = map_option f (map_of subs p)"
  by (induction subs) auto

lemma map_of_cambiar_hijo_otro:
  "q \<noteq> p \<Longrightarrow> map_of (cambiar_hijo p f subs) q = map_of subs q"
  by (induction subs) auto

lemma carpeta_en_modificar_mismo:
  "carpeta_en r p = Some c \<Longrightarrow> carpeta_en (modificar_en f p r) p = Some (f c)"
proof (induction p arbitrary: r)
  case Nil
  then show ?case by simp
next
  case (Cons a ps)
  then obtain s where s: "map_of (subcarpetas r) a = Some s" and c: "carpeta_en s ps = Some c"
    by (auto simp: obtener_subcarpeta_def split: option.splits)
  from Cons.IH [OF c] s show ?case
    by (simp add: obtener_subcarpeta_def map_of_cambiar_hijo_mismo)
qed

lemma carpeta_en_modificar_otro:
  assumes f: "\<And>c. subcarpetas (f c) = subcarpetas c"
  shows "p \<noteq> q \<Longrightarrow> carpeta_en r q = Some d \<Longrightarrow>
         \<exists>d'. carpeta_en (modificar_en f p r) q = Some d' \<and> mensajes d' = mensajes d"
proof (induction p arbitrary: q r d)
  case Nil
  then obtain b qs where q: "q = b # qs" by (cases q) auto
  with Nil show ?case by (simp add: obtener_subcarpeta_def f)
next
  case (Cons a ps)
  show ?case
  proof (cases q)
    case Nil
    with Cons.prems show ?thesis by simp
  next
    case q: (Cons b qs)
    show ?thesis
    proof (cases "b = a")
      case False
      with Cons.prems q show ?thesis
        by (simp add: obtener_subcarpeta_def map_of_cambiar_hijo_otro)
    next
      case True
      with Cons.prems q have ne: "ps \<noteq> qs" by simp
      from Cons.prems q True obtain s where
        s: "map_of (subcarpetas r) a = Some s" and d: "carpeta_en s qs = Some d"
        by (auto simp: obtener_subcarpeta_def split: option.splits)
      from Cons.IH [OF ne d] s q True show ?thesis
        by (simp add: obtener_subcarpeta_def map_of_cambiar_hijo_mismo)
    qed
  qed
qed

lemma mensajes_quitar: "mensajes (snd (quitar_mensaje c m)) = remove1 m (mensajes c)"
  by (simp add: quitar_mensaje_def remove1_idem)

lemma subcarpetas_quitar: "subcarpetas (snd (quitar_mensaje c m)) = subcarpetas c"
  by (simp add: quitar_mensaje_def)

lemma remove1_unico:
  "i < length ms \<Longrightarrow> ms ! i \<notin> set (take i ms) \<Longrightarrow>
   remove1 (ms ! i) ms = take i ms @ drop (Suc i) ms"
proof (induction ms arbitrary: i)
  case Nil
  then show ?case by simp
next
  case (Cons x xs)
  then show ?case by (cases i) auto
qed

lemma mover_fuera_de_rango:
  "carpeta_en r origen = Some co \<Longrightarrow> \<not> (0 \<le> i \<and> i < int (length (mensajes co))) \<Longrightarrow>
   mover_mensaje r origen i destino = (Inl fuera_de_rango, r)"
  by (auto simp: mover_mensaje_def obtener_por_indice_def)

lemma mover_en_rango:
  assumes co: "carpeta_en r origen = Some co"
    and i: "0 \<le> i" "i < int (length (mensajes co))"
  shows "mover_mensaje r origen i destino =
     (Inr (), modificar_en (\<lambda>c. agregar_mensaje c (mensajes co ! nat i)) destino
                (modificar_en (\<lambda>c. snd (quitar_mensaje c (mensajes co ! nat i))) origen r))"
proof -
  have "mensajes co ! nat i \<in> set (mensajes co)" using i by simp
  then show ?thesis using co i
    by (simp add: mover_mensaje_def obtener_por_indice_def quitar_mensaje_def)
qed

lemma mover_distintas:
  assumes co: "carpeta_en r origen = Some co" and cd: "carpeta_en r destino = Some cd"
    and i: "0 \<le> i" "i < int (length (mensajes co))" and ne: "origen \<noteq> destino"
  shows "fst (mover_mensaje r origen i destino) = Inr () \<and>
     map_option mensajes (carpeta_en (snd (mover_mensaje r origen i destino)) origen)
       = Some (remove1 (mensajes co ! nat i) (mensajes co)) \<and>
     map_option mensajes (carpeta_en (snd (mover_mensaje r origen i destino)) destino)
       = Some (mensajes cd @ [mensajes co ! nat i])"
proof -
  define m where "m = mensajes co ! nat i"
  define r1 where "r1 = modificar_en (\<lambda>c. snd (quitar_mensaje c m)) origen r"
  define r2 where "r2 = modificar_en (\<lambda>c. agregar_mensaje c m) destino r1"
  have mv: "mover_mensaje r origen i destino = (Inr (), r2)"
    using mover_en_rango [OF co i] by (simp add: r2_def r1_def m_def)
  have o1: "carpeta_en r1 origen = Some (snd (quitar_mensaje co m))"
    unfolding r1_def using co by (rule carpeta_en_modificar_mismo)
  obtain cd1 where d1: "carpeta_en r1 destino = Some cd1" and md1: "mensajes cd1 = mensajes cd"
    unfolding r1_def
    using carpeta_en_modificar_otro [of "\<lambda>c. snd (quitar_mensaje c m)" origen destino r cd]
      ne cd subcarpetas_quitar by blast
  have d2: "carpeta_en r2 destino = Some (agregar_mensaje cd1 m)"
    unfolding r2_def using d1 by (rule carpeta_en_modificar_mismo)
  obtain co2 where o2: "carpeta_en r2 origen = Some co2"
    and mo2: "mensajes co2 = mensajes (snd (quitar_mensaje co m))"
    unfolding r2_def
    using carpeta_en_modificar_otro [of "\<lambda>c. agregar_mensaje c m" destino origen r1
        "snd (quitar_mensaje co m)"] ne o1
    by (auto simp: agregar_mensaje_def)
  show ?thesis
    using mv o2 mo2 d2 md1 by (simp add: mensajes_quitar agregar_mensaje_def m_def)
qed

lemma mover_misma:
  assumes co: "carpeta_en r origen = Some co"
    and i: "0 \<le> i" "i < int (length (mensajes co))"
  shows "fst (mover_mensaje r origen i origen) = Inr () \<and>
     map_option mensajes (carpeta_en (snd (mover_mensaje r origen i origen)) origen)
       = Some (remove1 (mensajes co ! nat i) (mensajes co) @ [mensajes co ! nat i])"
proof -
  define m where "m = mensajes co ! nat i"
  define r1 where "r1 = modificar_en (\<lambda>c. snd (quitar_mensaje c m)) origen r"
  define r2 where "r2 = modificar_en (\<lambda>c. agregar_mensaje c m) origen r1"
  have mv: "mover_mensaje r origen i origen = (Inr (), r2)"
    using mover_en_rango [OF co i] by (simp add: r2_def r1_def m_def)
  have o1: "carpeta_en r1 origen = Some (snd (quitar_mensaje co m))"
    unfolding r1_def using co by (rule carpeta_en_modificar_mismo)
  have o2: "carpeta_en r2 origen = Some (agregar_mensaje (snd (quitar_mensaje co m)) m)"
    unfolding r2_def using o1 by (rule carpeta_en_modificar_mismo)
  show ?thesis using mv o2 by (simp add: mensajes_quitar agregar_mensaje_def m_def)
qed

text \<open>
  Claim C3, as stated, fails. \<^verbatim>\<open>quitar_mensaje\<close> removes the first occurrence of the
  message, so when the inbox holds the same message at positions 0 and 2, moving position 2
  to another folder leaves the message in the inbox (the occurrence at position 0 is the
  one removed); and moving a message from a folder to that same folder leaves it there, at
  the end.
\<close>

theorem mover_mensaje_counterexample:
  "fst (mover_mensaje arbol_repetido [''Entrada''] 2 [''Enviados'']) = Inr () \<and>
   map_option mensajes (carpeta_en arbol_repetido [''Entrada'']) = Some [mensaje_a, mensaje_b, mensaje_a] \<and>
   map_option mensajes
     (carpeta_en (snd (mover_mensaje arbol_repetido [''Entrada''] 2 [''Enviados''])) [''Entrada''])
     = Some [mensaje_b, mensaje_a] \<and>
   fst (mover_mensaje arbol_repetido [''Entrada''] 1 [''Entrada'']) = Inr () \<and>
   map_option mensajes
     (carpeta_en (snd (mover_mensaje arbol_repetido [''Entrada''] 1 [''Entrada''])) [''Entrada''])
     = Some [mensaje_a, mensaje_a, mensaje_b]"
  by (simp add: arbol_repetido_def mover_mensaje_def obtener_subcarpeta_def obtener_por_indice_def
      quitar_mensaje_def agregar_mensaje_def mensaje_a_def mensaje_b_def)

text \<open>
  Claim C3, amended. For folders \<open>origen\<close> and \<open>destino\<close> of the tree: when the index
  is out of range (negative, or not below the number of messages) the call fails with
  IndexError and the tree is unchanged. Otherwise it succeeds; with two different folders
  the source loses the first occurrence of the message that was at the index and the
  destination gets that same message at its end; with one and the same folder the first
  occurrence is removed and the message is appended to it. When the message does not occur
  before the index, what is removed is the entry at the index, so the entries after it move
  down by one; when moreover it does not occur after the index and the folders differ, the
  message is absent from the source afterwards.
\<close>

theorem mover_mensaje_corregido:
  assumes "carpeta_en r origen = Some co" and "carpeta_en r destino = Some cd"
  shows
  "(\<not> (0 \<le> i \<and> i < int (length (mensajes co))) \<longrightarrow>
      mover_mensaje r origen i destino = (Inl fuera_de_rango, r)) \<and>
   (0 \<le> i \<and> i < int (length (mensajes co)) \<longrightarrow>
      fst (mover_mensaje r origen i destino) = Inr () \<and>
      (origen \<noteq> destino \<longrightarrow>
         map_option mensajes (carpeta_en (snd (mover_mensaje r origen i destino)) origen)
           = Some (remove1 (mensajes co ! nat i) (mensajes co)) \<and>
         map_option mensajes (carpeta_en (snd (mover_mensaje r origen i destino)) destino)
           = Some (mensajes cd @ [mensajes co ! nat i])) \<and>
      (origen = destino \<longrightarrow>
         map_option mensajes (carpeta_en (snd (mover_mensaje r origen i destino)) origen)
           = Some (remove1 (mensajes co ! nat i) (mensajes co) @ [mensajes co ! nat i])) \<and>
      (mensajes co ! nat i \<notin> set (take (nat i) (mensajes co)) \<longrightarrow>
         remove1 (mensajes co ! nat i) (mensajes co)
           = take (nat i) (mensajes co) @ drop (Suc (nat i)) (mensajes co)) \<and>
      (origen \<noteq> destino \<and> mensajes co ! nat i \<notin> set (take (nat i) (mensajes co))
         \<and> mensajes co ! nat i \<notin> set (drop (Suc (nat i)) (mensajes co)) \<longrightarrow>
         (\<exists>ms. map_option mensajes (carpeta_en (snd (mover_mensaje r origen i destino)) origen) = Some ms
            \<and> mensajes co ! nat i \<notin> set ms
            \<and> ms = take (nat i) (mensajes co) @ drop (Suc (nat i)) (mensajes co))))"
proof -
  have a: "\<not> (0 \<le> i \<and> i < int (length (mensajes co))) \<longrightarrow>
      mover_mensaje r origen i destino = (Inl fuera_de_rango, r)"
    using mover_fuera_de_rango [OF assms(1)] by blast
  have b: ?thesis if i: "0 \<le> i" "i < int (length (mensajes co))"
  proof -
    have n: "nat i < length (mensajes co)" using i by simp
    have u: "mensajes co ! nat i \<notin> set (take (nat i) (mensajes co)) \<longrightarrow>
         remove1 (mensajes co ! nat i) (mensajes co)
           = take (nat i) (mensajes co) @ drop (Suc (nat i)) (mensajes co)"
      using remove1_unico [OF n] by blast
    show ?thesis
    proof (cases "origen = destino")
      case True
      with mover_misma [OF assms(1) i] i u show ?thesis by simp
    next
      case False
      with mover_distintas [OF assms i False] i u show ?thesis by auto
    qed
  qed
  from a b show ?thesis by (cases "0 \<le> i \<and> i < int (length (mensajes co))") blast+
qed

theorem mover_mensaje_corregido_witness:
  "mover_mensaje arbol_repetido [''Entrada''] 1 [''Enviados'']
     = (Inr (), Carpeta ''Root'' []
          [(''Entrada'', Carpeta ''Entrada'' [mensaje_a, mensaje_a] []),
           (''Enviados'', Carpeta ''Enviados'' [mensaje_b] [])]) \<and>
   mover_mensaje arbol_repetido [''Entrada''] 3 [''Enviados''] = (Inl fuera_de_rango, arbol_repetido) \<and>
   mover_mensaje arbol_repetido [''Entrada''] (- 1) [''Enviados''] = (Inl fuera_de_rango, arbol_repetido) \<and>
   mensaje_b \<notin> set [mensaje_a, mensaje_a]"
  using mover_mensaje_corregido [of arbol_repetido "[''Entrada'']"
      "Carpeta ''Entrada'' [mensaje_a, mensaje_b, mensaje_a] []" "[''Enviados'']"
      "Carpeta ''Enviados'' [] []" 1]
    mover_mensaje_corregido [of arbol_repetido "[''Entrada'']"
      "Carpeta ''Entrada'' [mensaje_a, mensaje_b, mensaje_a] []" "[''Enviados'']"
      "Carpeta ''Enviados'' [] []" 3]
    mover_mensaje_corregido [of arbol_repetido "[''Entrada'']"
      "Carpeta ''Entrada'' [mensaje_a, mensaje_b, mensaje_a] []" "[''Enviados'']"
      "Carpeta ''Enviados'' [] []" "- 1"]
  by (simp add: arbol_repetido_def mover_mensaje_def obtener_subcarpeta_def obtener_por_indice_def
      quitar_mensaje_def agregar_mensaje_def mensaje_a_def mensaje_b_def)

section \<open>Breadth-first search\<close>

lemma es_camino_snoc:
  "es_camino con p \<Longrightarrow> v \<in> set (vecinos con (last p)) \<Longrightarrow> es_camino con (p @ [v])"
  by (induction con p rule: es_camino.induct) auto

lemma es_camino_nth:
  "es_camino con q \<Longrightarrow> Suc j < length q \<Longrightarrow> q ! Suc j \<in> set (vecinos con (q ! j))"
proof (induction con q arbitrary: j rule: es_camino.induct)
  case (3 con a b r)
  then show ?case by (cases j) auto
qed auto

lemma es_camino_no_vacio: "es_camino con p \<Longrightarrow> p \<noteq> []"
  by auto

lemma bfs_bucle_camino:
  "bfs_bucle con d V Q = Some c \<Longrightarrow>
   (\<forall>x \<in> set Q. es_camino con (snd x) \<and> hd (snd x) = origen \<and> last (snd x) = fst x) \<Longrightarrow>
   es_camino con c \<and> hd c = origen \<and> last c = d"
proof (induction con d V Q rule: bfs_bucle.induct)
  case (1 con destino visitados)
  then show ?case by simp
next
  case (2 con destino visitados actual camino cola)
  show ?case
  proof (cases "actual = destino")
    case True
    then show ?thesis using 2 by simp
  next
    case nd: False
    show ?thesis
    proof (cases "actual \<in> visitados")
      case True
      then show ?thesis using 2 nd by simp
    next
      case False
      let ?Q = "cola @ map (\<lambda>vecino. (vecino, camino @ [vecino]))
                 (filter (\<lambda>vecino. vecino \<notin> insert actual visitados) (vecinos con actual))"
      have cam: "es_camino con camino" "hd camino = origen" "last camino = actual"
        using 2(4) by auto
      have "\<forall>x \<in> set ?Q. es_camino con (snd x) \<and> hd (snd x) = origen \<and> last (snd x) = fst x"
      proof
        fix x assume "x \<in> set ?Q"
        then consider "x \<in> set cola"
          | v where "x = (v, camino @ [v])" "v \<in> set (vecinos con actual)"
          by auto
        then show "es_camino con (snd x) \<and> hd (snd x) = origen \<and> last (snd x) = fst x"
        proof cases
          case 1
          then show ?thesis using 2(4) by simp
        next
          case 2
          have "camino \<noteq> []" using cam(1) by auto
          then show ?thesis using 2 cam by (simp add: es_camino_snoc)
        qed
      qed
      moreover have "bfs_bucle con destino (insert actual visitados) ?Q = Some c"
        using 2(3) nd False by simp
      ultimately show ?thesis using 2(2) nd False by blast
    qed
  qed
qed

lemma ordenada_cabeza:
  "ordenada ((a, c) # resto) \<Longrightarrow> (n, p) \<in> set ((a, c) # resto) \<Longrightarrow> length c \<le> length p"
  by (auto simp: ordenada_def)

lemma ordenada_cola: "ordenada (x # resto) \<Longrightarrow> ordenada resto"
  unfolding ordenada_def by auto

lemma sorted_constante: "sorted (map (\<lambda>x. (k::nat)) xs)"
  by (induction xs) auto

lemma ordenada_extiende:
  assumes "ordenada ((a, c) # resto)"
  shows "ordenada (resto @ map (\<lambda>v. (v, c @ [v])) vs)"
proof -
  from assms obtain m where
    s: "sorted (map (\<lambda>x. length (snd x)) ((a, c) # resto))" and
    b: "\<forall>x \<in> set ((a, c) # resto). m \<le> length (snd x) \<and> length (snd x) \<le> Suc m"
    unfolding ordenada_def by blast
  have mc: "m \<le> length c" using b by simp
  have lo: "\<forall>x \<in> set resto. length c \<le> length (snd x)" using s by simp
  have hi: "\<forall>x \<in> set resto. length (snd x) \<le> Suc (length c)" using b mc by fastforce
  have nuevos: "map (\<lambda>x. length (snd x)) (map (\<lambda>v. (v, c @ [v])) vs) = map (\<lambda>v. Suc (length c)) vs"
    by simp
  have "sorted (map (\<lambda>x. length (snd x)) (resto @ map (\<lambda>v. (v, c @ [v])) vs))"
    using s hi by (simp add: sorted_append o_def sorted_constante)
  moreover have "\<forall>x \<in> set (resto @ map (\<lambda>v. (v, c @ [v])) vs).
      length c \<le> length (snd x) \<and> length (snd x) \<le> Suc (length c)"
    using lo hi by auto
  ultimately show ?thesis unfolding ordenada_def by blast
qed

lemma ultima_aparicion:
  assumes "i \<le> k0" "k0 < (n::nat)" "P k0"
  shows "\<exists>j. i \<le> j \<and> j < n \<and> P j \<and> (\<forall>k. j < k \<and> k < n \<longrightarrow> \<not> P k)"
proof -
  let ?S = "{k. i \<le> k \<and> k < n \<and> P k}"
  have "?S \<subseteq> {..<n}" by auto
  then have fin: "finite ?S" by (rule finite_subset) simp
  have ne: "?S \<noteq> {}" using assms by blast
  have "Max ?S \<in> ?S" using fin ne by (rule Max_in)
  moreover have "\<forall>k. Max ?S < k \<and> k < n \<longrightarrow> \<not> P k"
  proof (intro allI impI notI)
    fix k assume h: "Max ?S < k \<and> k < n" and "P k"
    have "i \<le> Max ?S" using \<open>Max ?S \<in> ?S\<close> by simp
    then have "k \<in> ?S" using h \<open>P k\<close> by simp
    then have "k \<le> Max ?S" using fin by simp
    then show False using h by simp
  qed
  ultimately show ?thesis by blast
qed

lemma frontera_avanza:
  assumes cam: "es_camino con q" and ult: "last q = d" and nd: "a \<noteq> d"
    and ord: "ordenada ((a, c) # resto)" and fr: "frontera q V ((a, c) # resto)"
  shows "frontera q (insert a V)
           (resto @ map (\<lambda>v. (v, c @ [v])) (filter (\<lambda>v. v \<notin> insert a V) (vecinos con a)))"
proof -
  let ?Q = "resto @ map (\<lambda>v. (v, c @ [v])) (filter (\<lambda>v. v \<notin> insert a V) (vecinos con a))"
  from fr obtain i p where i: "i < length q"
    and unv: "\<forall>k. i \<le> k \<and> k < length q \<longrightarrow> q ! k \<notin> V"
    and mem: "(q ! i, p) \<in> set ((a, c) # resto)" and len: "length p \<le> Suc i"
    unfolding frontera_def by blast
  show ?thesis
  proof (cases "\<exists>k. i \<le> k \<and> k < length q \<and> q ! k = a")
    case False
    then have "\<forall>k. i \<le> k \<and> k < length q \<longrightarrow> q ! k \<notin> insert a V" using unv by auto
    moreover have "q ! i \<noteq> a" using False i by auto
    then have "(q ! i, p) \<in> set ?Q" using mem by auto
    ultimately show ?thesis unfolding frontera_def using i len by blast
  next
    case True
    then obtain k0 where "i \<le> k0" "k0 < length q" "q ! k0 = a" by blast
    then obtain j where j: "i \<le> j" "j < length q" "q ! j = a"
      and jmax: "\<forall>k. j < k \<and> k < length q \<longrightarrow> q ! k \<noteq> a"
      using ultima_aparicion [of i k0 "length q" "\<lambda>k. q ! k = a"] by blast
    have "q \<noteq> []" using i by auto
    then have "q ! (length q - 1) = d" using ult by (simp add: last_conv_nth)
    then have "j \<noteq> length q - 1" using j(3) nd by auto
    then have sj: "Suc j < length q" using j(2) by simp
    let ?v = "q ! Suc j"
    have vec: "?v \<in> set (vecinos con a)" using es_camino_nth [OF cam sj] j(3) by simp
    have libres: "\<forall>k. Suc j \<le> k \<and> k < length q \<longrightarrow> q ! k \<notin> insert a V"
      using unv jmax j(1) by auto
    then have "?v \<notin> insert a V" using sj by blast
    then have enQ: "(?v, c @ [?v]) \<in> set ?Q" using vec by auto
    have "length c \<le> length p" using ordenada_cabeza [OF ord mem] .
    then have "length (c @ [?v]) \<le> Suc (Suc j)" using len j(1) by simp
    then show ?thesis unfolding frontera_def using sj libres enQ by blast
  qed
qed

lemma frontera_salta:
  assumes "a \<in> V" and fr: "frontera q V ((a, c) # resto)"
  shows "frontera q V resto"
proof -
  from fr obtain i p where i: "i < length q"
    and unv: "\<forall>k. i \<le> k \<and> k < length q \<longrightarrow> q ! k \<notin> V"
    and mem: "(q ! i, p) \<in> set ((a, c) # resto)" and len: "length p \<le> Suc i"
    unfolding frontera_def by blast
  have "q ! i \<notin> V" using unv i by simp
  then have "q ! i \<noteq> a" using assms(1) by auto
  then have "(q ! i, p) \<in> set resto" using mem by auto
  then show ?thesis unfolding frontera_def using i unv len by blast
qed

lemma bfs_bucle_minimo:
  "es_camino con q \<Longrightarrow> last q = d \<Longrightarrow> ordenada Q \<Longrightarrow> frontera q V Q \<Longrightarrow>
   \<exists>c. bfs_bucle con d V Q = Some c \<and> length c \<le> length q"
proof (induction con d V Q rule: bfs_bucle.induct)
  case (1 con destino visitados)
  then show ?case by (simp add: frontera_def)
next
  case (2 con destino visitados actual camino cola)
  show ?case
  proof (cases "actual = destino")
    case True
    from 2(6) obtain i p where i: "i < length q"
      and mem: "(q ! i, p) \<in> set ((actual, camino) # cola)" and len: "length p \<le> Suc i"
      unfolding frontera_def by blast
    have "length camino \<le> length p" using ordenada_cabeza [OF 2(5) mem] .
    then have "length camino \<le> length q" using len i by simp
    then show ?thesis using True by simp
  next
    case nd: False
    show ?thesis
    proof (cases "actual \<in> visitados")
      case True
      have "ordenada cola" using 2(5) by (rule ordenada_cola)
      moreover have "frontera q visitados cola" using True 2(6) by (rule frontera_salta)
      ultimately have "\<exists>c. bfs_bucle con destino visitados cola = Some c \<and> length c \<le> length q"
        using 2(1) [OF nd True 2(3) 2(4)] by blast
      then show ?thesis using nd True by simp
    next
      case False
      let ?Q = "cola @ map (\<lambda>vecino. (vecino, camino @ [vecino]))
                 (filter (\<lambda>vecino. vecino \<notin> insert actual visitados) (vecinos con actual))"
      have "ordenada ?Q" using 2(5) by (rule ordenada_extiende)
      moreover have "frontera q (insert actual visitados) ?Q"
        using 2(3) 2(4) nd 2(5) 2(6) by (rule frontera_avanza)
      ultimately have "\<exists>c. bfs_bucle con destino (insert actual visitados) ?Q = Some c
          \<and> length c \<le> length q"
        using 2(2) [OF nd False 2(3) 2(4)] by blast
      then show ?thesis using nd False by simp
    qed
  qed
qed

lemma bfs_inicio_ordenada: "ordenada [(origen, [origen])]"
  unfolding ordenada_def by (rule exI [of _ 1]) simp

lemma bfs_inicio_frontera:
  "es_camino con q \<Longrightarrow> hd q = origen \<Longrightarrow> frontera q {} [(origen, [origen])]"
  unfolding frontera_def by (rule exI [of _ 0]) (cases q, auto)

lemma bfs_existe:
  "camino_entre con origen destino q \<Longrightarrow>
   \<exists>c. bfs con origen destino = Some c \<and> length c \<le> length q"
  unfolding camino_entre_def bfs_def
  using bfs_bucle_minimo [of con q destino "[(origen, [origen])]" "{}"]
    bfs_inicio_ordenada [of origen] bfs_inicio_frontera [of con q origen]
  by blast

lemma bfs_es_camino:
  "bfs con origen destino = Some c \<Longrightarrow> camino_entre con origen destino c"
  unfolding camino_entre_def bfs_def
  using bfs_bucle_camino [of con destino "{}" "[(origen, [origen])]" c origen]
  by simp

text \<open>
  Claim C4. For every dictionary of connections and every pair of names, \<open>bfs\<close> returns
  \<open>None\<close> exactly when the graph has no path from the origin to the destination, and otherwise
  returns a path from the origin to the destination, listed in order, that has no more edges
  than any other such path. On the graph with the edges A-C and C-B the search from A to B
  returns A, C, B, and the search from A to D returns \<open>None\<close>, whether D was never mentioned or
  was added as a server with no connection.
\<close>

theorem bfs_camino_minimo:
  "(case bfs con origen destino of
      None \<Rightarrow> \<not> (\<exists>p. camino_entre con origen destino p)
    | Some c \<Rightarrow> camino_entre con origen destino c \<and>
        (\<forall>p. camino_entre con origen destino p \<longrightarrow> num_aristas c \<le> num_aristas p)) \<and>
   bfs red_ejemplo ''A'' ''B'' = Some [''A'', ''C'', ''B''] \<and>
   bfs red_ejemplo ''A'' ''D'' = None \<and>
   bfs (agregar_servidor red_ejemplo ''D'') ''A'' ''D'' = None"
proof (intro conjI)
  show "case bfs con origen destino of
      None \<Rightarrow> \<not> (\<exists>p. camino_entre con origen destino p)
    | Some c \<Rightarrow> camino_entre con origen destino c \<and>
        (\<forall>p. camino_entre con origen destino p \<longrightarrow> num_aristas c \<le> num_aristas p)"
  proof (cases "bfs con origen destino")
    case None
    then show ?thesis using bfs_existe [of con origen destino] by auto
  next
    case (Some c)
    have "camino_entre con origen destino c" using Some by (rule bfs_es_camino)
    moreover have "\<forall>p. camino_entre con origen destino p \<longrightarrow> num_aristas c \<le> num_aristas p"
    proof (intro allI impI)
      fix p assume "camino_entre con origen destino p"
      then obtain c' where "bfs con origen destino = Some c'" "length c' \<le> length p"
        using bfs_existe by blast
      then show "num_aristas c \<le> num_aristas p" using Some by (simp add: num_aristas_def)
    qed
    ultimately show ?thesis using Some by simp
  qed
next
  show "bfs red_ejemplo ''A'' ''B'' = Some [''A'', ''C'', ''B'']"
    by (simp add: red_ejemplo_def bfs_def conectar_def vecinos_def)
next
  show "bfs red_ejemplo ''A'' ''D'' = None"
    by (simp add: red_ejemplo_def bfs_def conectar_def vecinos_def)
next
  show "bfs (agregar_servidor red_ejemplo ''D'') ''A'' ''D'' = None"
    by (simp add: red_ejemplo_def bfs_def conectar_def vecinos_def agregar_servidor_def)
qed

theorem bfs_camino_minimo_witness:
  "camino_entre red_dos_rutas ''A'' ''B'' [''A'', ''E'', ''F'', ''B''] \<and>
   bfs red_dos_rutas ''A'' ''B'' = Some [''A'', ''C'', ''B''] \<and>
   camino_entre red_dos_rutas ''A'' ''B'' [''A'', ''C'', ''B''] \<and>
   num_aristas [''A'', ''C'', ''B''] \<le> num_aristas [''A'', ''E'', ''F'', ''B'']"
  using bfs_camino_minimo [of red_dos_rutas "''A''" "''B''"]
  by (simp add: red_dos_rutas_def bfs_def conectar_def vecinos_def camino_entre_def num_aristas_def)

text \<open>
  Claim C9. For every name \<open>s\<close> and every dictionary of connections, also one with no entry
  for \<open>s\<close>, \<open>bfs s s\<close> returns the one-element path \<open>[s]\<close>: the destination test comes before
  the visited test and before any lookup of neighbours. No call of \<open>bfs\<close> returns the empty list.
\<close>

theorem bfs_mismo_nodo:
  "bfs con s s = Some [s] \<and>
   bfs [] ''X'' ''X'' = Some [''X''] \<and>
   bfs con origen destino \<noteq> Some []"
proof (intro conjI)
  show "bfs con s s = Some [s]" by (simp add: bfs_def)
  show "bfs [] ''X'' ''X'' = Some [''X'']" by (simp add: bfs_def)
  show "bfs con origen destino \<noteq> Some []"
  proof
    assume "bfs con origen destino = Some []"
    then have "camino_entre con origen destino []" by (rule bfs_es_camino)
    then show False by (simp add: camino_entre_def)
  qed
qed

section \<open>The list returned by mensajes\<close>

lemma fold_mutar:
  "a < length st \<Longrightarrow>
   fold (\<lambda>f s. mutar s a f) fs st = st[a := fold (\<lambda>f xs. f xs) fs (st ! a)]"
proof (induction fs arbitrary: st)
  case Nil
  then show ?case by simp
next
  case (Cons f fs)
  have "a < length (mutar st a f)" using Cons.prems by (simp add: mutar_def)
  then show ?case using Cons.IH [of "mutar st a f"] Cons.prems by (simp add: mutar_def)
qed

text \<open>
  Claim C8. For every folder whose list of messages is an object of the store, \<^verbatim>\<open>mensajes()\<close>
  returns a list object other than the folder's own, with the same contents. After any
  sequence of in-place changes of the returned list (appending, removing, reordering, or any
  other), the returned list holds the changed contents, every list object that existed
  before the call, the folder's own among them, is unchanged, and a later \<^verbatim>\<open>mensajes()\<close>
  returns the original contents.
\<close>

theorem mensajes_copia:
  assumes "ref_mensajes c < length st"
  shows "case mensajes_obj st c of (a, st1) \<Rightarrow>
           a \<noteq> ref_mensajes c \<and> st1 ! a = st ! ref_mensajes c \<and>
           (let st2 = fold (\<lambda>f s. mutar s a f) fs st1 in
              st2 ! a = fold (\<lambda>f xs. f xs) fs (st ! ref_mensajes c) \<and>
              (\<forall>r < length st. st2 ! r = st ! r) \<and>
              (case mensajes_obj st2 c of (b, st3) \<Rightarrow> st3 ! b = st ! ref_mensajes c))"
proof -
  let ?a = "length st"
  let ?st1 = "st @ [st ! ref_mensajes c]"
  have a: "?a < length ?st1" by simp
  have st2: "fold (\<lambda>f s. mutar s ?a f) fs ?st1 = ?st1[?a := fold (\<lambda>f xs. f xs) fs (?st1 ! ?a)]"
    using a by (rule fold_mutar)
  show ?thesis
    using assms by (simp add: mensajes_obj_def lista_nueva_def st2 nth_append Let_def)
qed

theorem mensajes_copia_witness:
  "(case carpeta_con_dos of (c, st) \<Rightarrow>
      ref_mensajes c < length st \<and>
      (case mensajes_obj st c of (a, st1) \<Rightarrow>
         st1 ! a = [mensaje_a, mensaje_b] \<and>
         (let st2 = fold (\<lambda>f s. mutar s a f) [\<lambda>xs. xs @ [mensaje_a], remove1 mensaje_b, rev] st1 in
            st2 ! a = [mensaje_a, mensaje_a] \<and>
            st2 ! ref_mensajes c = [mensaje_a, mensaje_b] \<and>
            (case mensajes_obj st2 c of (b, st3) \<Rightarrow> st3 ! b = [mensaje_a, mensaje_b]))))"
  using mensajes_copia [of "fst carpeta_con_dos" "snd carpeta_con_dos"
      "[\<lambda>xs. xs @ [mensaje_a], remove1 mensaje_b, rev]"]
  by (simp add: carpeta_con_dos_def Carpeta_obj_init_def lista_nueva_def agregar_mensaje_obj_def
      mutar_def mensajes_obj_def mensaje_a_def mensaje_b_def)

section \<open>The priority queue and sending\<close>

lemma agregar_segundo_igual:
  "m' \<noteq> m \<Longrightarrow> agregar [(prioridad_num m, m')] m =
     (Inl error_comparacion, [(prioridad_num m, m'), (prioridad_num m, m)])"
  by (simp add: agregar_def heappush_def siftdown_def siftdown_bucle.simps menor_def)

lemma agregar_primero: "agregar [] m = (Inr (), [(prioridad_num m, m)])"
  by (simp add: agregar_def heappush_def siftdown_def siftdown_bucle.simps)

lemma obtener_carpeta_Inr: "fst (obtener_carpeta u nom) = Inr ()"
proof (cases "obtener_subcarpeta (raiz u) nom")
  case None
  then have "nom \<notin> fst ` set (subcarpetas (raiz u))"
    by (simp add: obtener_subcarpeta_def map_of_eq_None_iff)
  then show ?thesis using None by (simp add: obtener_carpeta_def crear_subcarpeta_def)
next
  case (Some c)
  then show ?thesis by (simp add: obtener_carpeta_def)
qed

lemma map_of_asignar_otro: "k \<noteq> k' \<Longrightarrow> map_of (asignar d k' v) k = map_of d k"
  by (induction d) auto

lemma guardar_en_Inr: "fst (guardar_en u nom m) = Inr ()"
proof -
  obtain r u' where h: "obtener_carpeta u nom = (r, u')" by fastforce
  then have "r = Inr ()" using obtener_carpeta_Inr [of u nom] by simp
  then show ?thesis using h by (simp add: guardar_en_def)
qed

text \<open>
  Claim C1. The queue is not drained in priority order when two of its messages have the same
  priority. For any two different messages with the same ordinal, adding the first to an
  empty queue succeeds and adding the second raises \<^verbatim>\<open>TypeError\<close>, leaving both entries in the
  list. And a queue can be filled without an exception and still not be drained: a message of
  high priority and then two of medium priority are added, each addition returning normally;
  \<^verbatim>\<open>procesar_mensajes_prioritarios\<close> on a server with that queue then raises \<^verbatim>\<open>TypeError\<close> at its
  first step, having printed the heading and no message, and the queue is left with the two
  medium entries: the high message is gone from the queue and was never printed.
\<close>

theorem cola_prioridad_repetida:
  "(m' \<noteq> m \<and> prioridad_num m' = prioridad_num m \<longrightarrow>
      agregar [] m' = (Inr (), [(prioridad_num m', m')]) \<and>
      agregar [(prioridad_num m', m')] m =
        (Inl error_comparacion, [(prioridad_num m', m'), (prioridad_num m, m)])) \<and>
   agregar [] mensaje_alta = (Inr (), [(1, mensaje_alta)]) \<and>
   agregar [(1, mensaje_alta)] mensaje_d = (Inr (), [(1, mensaje_alta), (2, mensaje_d)]) \<and>
   agregar [(1, mensaje_alta), (2, mensaje_d)] mensaje_e = (Inr (), cola_tres) \<and>
   procesar_mensajes_prioritarios ((ServidorCorreo_init ''S'')\<lparr> cola_prioridades := cola_tres \<rparr>) =
     (Inl error_comparacion, [[], ''Procesando mensajes por prioridad:''],
      (ServidorCorreo_init ''S'')\<lparr> cola_prioridades := [(2, mensaje_d), (2, mensaje_e)] \<rparr>)"
proof (intro conjI impI)
  assume h: "m' \<noteq> m \<and> prioridad_num m' = prioridad_num m"
  show "agregar [] m' = (Inr (), [(prioridad_num m', m')])" by (rule agregar_primero)
  show "agregar [(prioridad_num m', m')] m =
        (Inl error_comparacion, [(prioridad_num m', m'), (prioridad_num m, m)])"
    using h agregar_segundo_igual [of m' m] by simp
next
  show "agregar [] mensaje_alta = (Inr (), [(1, mensaje_alta)])"
    by (simp add: agregar_primero prioridad_num_def valor_def mensaje_alta_def)
next
  show "agregar [(1, mensaje_alta)] mensaje_d = (Inr (), [(1, mensaje_alta), (2, mensaje_d)])"
    by (simp add: agregar_def heappush_def siftdown_def siftdown_bucle.simps menor_def
        prioridad_num_def valor_def mensaje_d_def)
next
  show "agregar [(1, mensaje_alta), (2, mensaje_d)] mensaje_e = (Inr (), cola_tres)"
    by (simp add: agregar_def heappush_def siftdown_def siftdown_bucle.simps menor_def
        prioridad_num_def valor_def mensaje_e_def cola_tres_def)
next
  have de: "mensaje_e \<noteq> mensaje_d" by (simp add: mensaje_e_def mensaje_d_def)
  have "heappop cola_tres = (Inl error_comparacion, [(2, mensaje_d), (2, mensaje_e)])"
    using de by (simp add: cola_tres_def heappop_def siftup_def siftup_bucle.simps siftdown_def
        siftdown_bucle.simps menor_def intercambiar_def)
  then have "procesar cola_tres = (Inl error_comparacion, [(2, mensaje_d), (2, mensaje_e)])"
    by (simp add: procesar_def cola_tres_def)
  moreover have "\<not> esta_vacia cola_tres" by (simp add: esta_vacia_def cola_tres_def)
  ultimately have "procesar_bucle cola_tres [[], ''Procesando mensajes por prioridad:''] =
      (Inl error_comparacion, [[], ''Procesando mensajes por prioridad:''],
       [(2, mensaje_d), (2, mensaje_e)])"
    by (simp add: procesar_bucle.simps [of cola_tres])
  then show "procesar_mensajes_prioritarios
       ((ServidorCorreo_init ''S'')\<lparr> cola_prioridades := cola_tres \<rparr>) =
     (Inl error_comparacion, [[], ''Procesando mensajes por prioridad:''],
      (ServidorCorreo_init ''S'')\<lparr> cola_prioridades := [(2, mensaje_d), (2, mensaje_e)] \<rparr>)"
    by (simp add: procesar_mensajes_prioritarios_def)
qed

theorem cola_prioridad_repetida_witness:
  "mensaje_d \<noteq> mensaje_e \<and> prioridad_num mensaje_d = prioridad_num mensaje_e \<and>
   agregar [] mensaje_d = (Inr (), [(2, mensaje_d)]) \<and>
   agregar [(2, mensaje_d)] mensaje_e = (Inl error_comparacion, [(2, mensaje_d), (2, mensaje_e)])"
  using cola_prioridad_repetida [of mensaje_d mensaje_e]
  by (simp add: prioridad_num_def valor_def mensaje_d_def mensaje_e_def)

text \<open>
  Claim C2. \<^verbatim>\<open>enviar\<close> does not always complete its steps. Whenever the queue of the server
  holds one entry whose ordinal is that of the message sent and whose message is a different
  one, \<^verbatim>\<open>enviar\<close> raises \<^verbatim>\<open>TypeError\<close>, whoever the sender and the recipient are and whatever
  \<^verbatim>\<open>str.lower\<close> does; both entries are in the queue afterwards, and a registered recipient other
  than the sender is left as it was, so nothing is delivered. On a server where Luis and Ana
  are registered, the first message of medium priority from Luis to Ana is sent normally and
  lands in Ana's \<^verbatim>\<open>Entrada\<close>; the second raises \<^verbatim>\<open>TypeError\<close>, is in Luis's \<^verbatim>\<open>Enviados\<close>, and is
  not delivered to Ana. On a server with no user, where the recipient is therefore not
  registered, the first send returns normally and the second raises \<^verbatim>\<open>TypeError\<close>.
\<close>

theorem enviar_prioridad_repetida:
  "(cola_prioridades s = [(prioridad_num m, m')] \<and> m' \<noteq> m \<longrightarrow>
      fst (enviar baja s m) = Inl error_comparacion \<and>
      cola_prioridades (snd (enviar baja s m)) = [(prioridad_num m, m'), (prioridad_num m, m)] \<and>
      (\<forall>u. map_of (usuarios s) (destinatario m) = Some u \<and> remitente m \<noteq> destinatario m \<longrightarrow>
           map_of (usuarios (snd (enviar baja s m))) (destinatario m) = Some u)) \<and>
   fst (enviar lower_ascii servidor_dos_usuarios mensaje_d) = Inr () \<and>
   mensajes_en (snd (enviar lower_ascii servidor_dos_usuarios mensaje_d))
     ''ana@mail.com'' ''Entrada'' = [mensaje_d] \<and>
   fst (enviar lower_ascii (snd (enviar lower_ascii servidor_dos_usuarios mensaje_d)) mensaje_e) =
     Inl error_comparacion \<and>
   mensajes_en (snd (enviar lower_ascii (snd (enviar lower_ascii servidor_dos_usuarios mensaje_d))
       mensaje_e)) ''luis@mail.com'' ''Enviados'' = [mensaje_d, mensaje_e] \<and>
   mensajes_en (snd (enviar lower_ascii (snd (enviar lower_ascii servidor_dos_usuarios mensaje_d))
       mensaje_e)) ''ana@mail.com'' ''Entrada'' = [mensaje_d] \<and>
   fst (enviar lower_ascii (ServidorCorreo_init ''S'') mensaje_d) = Inr () \<and>
   fst (enviar lower_ascii (snd (enviar lower_ascii (ServidorCorreo_init ''S'') mensaje_d)) mensaje_e) =
     Inl error_comparacion"
proof (intro conjI impI allI)
  assume h: "cola_prioridades s = [(prioridad_num m, m')] \<and> m' \<noteq> m"
  define paso where "paso = (case map_of (usuarios s) (remitente m) of
              None \<Rightarrow> (Inr (), s)
            | Some rem \<Rightarrow>
                (case guardar_en rem ''Enviados'' m of
                   (r, rem') \<Rightarrow> (r, s\<lparr> usuarios := asignar (usuarios s) (remitente m) rem' \<rparr>)))"
  have p1: "fst paso = Inr ()"
  proof (cases "map_of (usuarios s) (remitente m)")
    case None
    then show ?thesis by (simp add: paso_def)
  next
    case (Some rem)
    obtain r rem' where g: "guardar_en rem ''Enviados'' m = (r, rem')" by fastforce
    then have "r = Inr ()" using guardar_en_Inr [of rem "''Enviados''" m] by simp
    then show ?thesis using Some g by (simp add: paso_def)
  qed
  have p2: "cola_prioridades (snd paso) = cola_prioridades s"
  proof (cases "map_of (usuarios s) (remitente m)")
    case None
    then show ?thesis by (simp add: paso_def)
  next
    case (Some rem)
    obtain r rem' where g: "guardar_en rem ''Enviados'' m = (r, rem')" by fastforce
    then show ?thesis using Some by (simp add: paso_def)
  qed
  have p3: "k \<noteq> remitente m \<Longrightarrow> map_of (usuarios (snd paso)) k = map_of (usuarios s) k" for k
  proof (cases "map_of (usuarios s) (remitente m)")
    case None
    then show ?thesis by (simp add: paso_def)
  next
    case (Some rem)
    assume k: "k \<noteq> remitente m"
    obtain r rem' where g: "guardar_en rem ''Enviados'' m = (r, rem')" by fastforce
    then show ?thesis using Some k by (simp add: paso_def map_of_asignar_otro)
  qed
  obtain s1 where s1: "paso = (Inr (), s1)" using p1 by (cases paso) auto
  have c: "cola_prioridades s1 = [(prioridad_num m, m')]" using p2 s1 h by simp
  have a: "agregar (cola_prioridades s1) m =
      (Inl error_comparacion, [(prioridad_num m, m'), (prioridad_num m, m)])"
    using h c agregar_segundo_igual [of m' m] by simp
  have e: "enviar baja s m = (Inl error_comparacion,
      s1\<lparr> cola_prioridades := [(prioridad_num m, m'), (prioridad_num m, m)] \<rparr>)"
    using s1 a unfolding enviar_def paso_def [symmetric] by simp
  show "fst (enviar baja s m) = Inl error_comparacion" using e by simp
  show "cola_prioridades (snd (enviar baja s m)) = [(prioridad_num m, m'), (prioridad_num m, m)]"
    using e by simp
  fix u
  assume d: "map_of (usuarios s) (destinatario m) = Some u \<and> remitente m \<noteq> destinatario m"
  then have "destinatario m \<noteq> remitente m" by auto
  then have "map_of (usuarios (snd paso)) (destinatario m) = map_of (usuarios s) (destinatario m)"
    by (rule p3)
  then show "map_of (usuarios (snd (enviar baja s m))) (destinatario m) = Some u"
    using e s1 d by simp
qed (simp_all add: servidor_dos_usuarios_def registrar_usuario_def ServidorCorreo_init_def
      Usuario_init_def crear_subcarpeta_def Carpeta_init_def enviar_def guardar_en_def
      obtener_carpeta_def obtener_subcarpeta_def agregar_mensaje_def agregar_def heappush_def
      siftdown_def siftdown_bucle.simps menor_def prioridad_num_def valor_def obtener_usuario_def
      aplicar_filtros_def carpeta_destino_de_def lower_ascii_def lower_ascii_char_def
      mensajes_en_def mensaje_d_def mensaje_e_def)

theorem enviar_prioridad_repetida_witness:
  "cola_prioridades (snd (enviar lower_ascii servidor_dos_usuarios mensaje_d)) =
     [(prioridad_num mensaje_e, mensaje_d)] \<and>
   mensaje_d \<noteq> mensaje_e \<and>
   map_of (usuarios (snd (enviar lower_ascii servidor_dos_usuarios mensaje_d))) (destinatario mensaje_e)
     \<noteq> None \<and>
   remitente mensaje_e \<noteq> destinatario mensaje_e \<and>
   fst (enviar lower_ascii (snd (enviar lower_ascii servidor_dos_usuarios mensaje_d)) mensaje_e) =
     Inl error_comparacion \<and>
   cola_prioridades (snd (enviar lower_ascii (snd (enviar lower_ascii servidor_dos_usuarios mensaje_d))
       mensaje_e)) = [(2, mensaje_d), (2, mensaje_e)] \<and>
   map_of (usuarios (snd (enviar lower_ascii (snd (enviar lower_ascii servidor_dos_usuarios mensaje_d))
       mensaje_e))) ''ana@mail.com'' =
     map_of (usuarios (snd (enviar lower_ascii servidor_dos_usuarios mensaje_d))) ''ana@mail.com''"
  using enviar_prioridad_repetida [of "snd (enviar lower_ascii servidor_dos_usuarios mensaje_d)"
      mensaje_e mensaje_d lower_ascii]
  by (simp add: servidor_dos_usuarios_def registrar_usuario_def ServidorCorreo_init_def
      Usuario_init_def crear_subcarpeta_def Carpeta_init_def enviar_def guardar_en_def
      obtener_carpeta_def obtener_subcarpeta_def agregar_mensaje_def agregar_def heappush_def
      siftdown_def siftdown_bucle.simps menor_def prioridad_num_def valor_def obtener_usuario_def
      aplicar_filtros_def carpeta_destino_de_def lower_ascii_def lower_ascii_char_def
      mensaje_d_def mensaje_e_def)

end
